theory Spec2Isabelle
  imports Complex_Main "HOL-Library.Log_Nat"
begin

section \<open>JavaScript numbers\<close>

text \<open>
  The test runner (\<^verbatim>\<open>TestRunner\<close>, a React component) computes with JavaScript numbers:
  IEEE 754 binary64 values. A finite double is a rational, so a number is modelled as
  \<open>NaN\<close>, an infinity or a rational; every arithmetic operation computes the exact
  rational result and rounds it to the nearest double, ties to even, as the hardware does.
  The two zeros are identified: no operation of the component tells them apart.
\<close>

datatype jsnum = NaN | NegInf | Fin rat | PosInf

text \<open>\<open>ilog2 x\<close> is the binary exponent of a positive rational: \<open>2 ^ e \<le> x < 2 ^ (e + 1)\<close>.\<close>

definition ilog2 :: "rat \<Rightarrow> int" where
  "ilog2 x = (case quotient_of x of (p, q) \<Rightarrow>
     (let e0 = bitlen p - bitlen q
      in if 2 powi e0 \<le> x then e0 else e0 - 1))"

definition round_half_even :: "rat \<Rightarrow> int" where
  "round_half_even x = (let f = \<lfloor>x\<rfloor>; r = x - of_int f
     in if r < 1 / 2 then f else if 1 / 2 < r then f + 1
        else if even f then f else f + 1)"

text \<open>
  Rounding to binary64: 53 significant bits, exponents from \<open>-1022\<close> (below that the
  spacing stays \<open>2 ^ -1074\<close>: subnormal numbers) to \<open>1023\<close> (above that: overflow to an
  infinity).
\<close>

definition to_double :: "rat \<Rightarrow> jsnum" where
  "to_double x = (if x = 0 then Fin 0 else
     (let e = max (ilog2 \<bar>x\<bar>) (- 1022);
          q = 2 powi (e - 52);
          m = round_half_even (x / q)
      in if 1023 < e \<or> (e = 1023 \<and> \<bar>m\<bar> = 9007199254740992)
         then (if 0 < x then PosInf else NegInf)
         else Fin (of_int m * q)))"

fun js_neg :: "jsnum \<Rightarrow> jsnum" where
  "js_neg NaN = NaN"
| "js_neg NegInf = PosInf"
| "js_neg PosInf = NegInf"
| "js_neg (Fin x) = Fin (- x)"

text \<open>\<^verbatim>\<open>a - b\<close>\<close>

fun js_sub :: "jsnum \<Rightarrow> jsnum \<Rightarrow> jsnum" where
  "js_sub (Fin a) (Fin b) = to_double (a - b)"
| "js_sub NaN _ = NaN"
| "js_sub _ NaN = NaN"
| "js_sub PosInf PosInf = NaN"
| "js_sub NegInf NegInf = NaN"
| "js_sub PosInf _ = PosInf"
| "js_sub NegInf _ = NegInf"
| "js_sub (Fin a) PosInf = NegInf"
| "js_sub (Fin a) NegInf = PosInf"

text \<open>\<^verbatim>\<open>a * b\<close>\<close>

definition js_sign :: "jsnum \<Rightarrow> int" where
  "js_sign a = (case a of NaN \<Rightarrow> 0 | NegInf \<Rightarrow> - 1 | PosInf \<Rightarrow> 1
     | Fin x \<Rightarrow> if x < 0 then - 1 else if x = 0 then 0 else 1)"

fun js_mul :: "jsnum \<Rightarrow> jsnum \<Rightarrow> jsnum" where
  "js_mul (Fin a) (Fin b) = to_double (a * b)"
| "js_mul NaN _ = NaN"
| "js_mul _ NaN = NaN"
| "js_mul a b =
     (let s = js_sign a * js_sign b
      in if s = 0 then NaN else if 0 < s then PosInf else NegInf)"

text \<open>
  \<^verbatim>\<open>a / b\<close>. A zero divisor is the positive zero here: the only divisor of the component
  that can be zero is \<^verbatim>\<open>questions.length\<close>.
\<close>

fun js_div :: "jsnum \<Rightarrow> jsnum \<Rightarrow> jsnum" where
  "js_div (Fin a) (Fin b) =
     (if b = 0 then (if a = 0 then NaN else if 0 < a then PosInf else NegInf)
      else to_double (a / b))"
| "js_div NaN _ = NaN"
| "js_div _ NaN = NaN"
| "js_div (Fin a) _ = Fin 0"
| "js_div a (Fin b) =
     (let s = js_sign a * (if b < 0 then - 1 else 1)
      in if 0 < s then PosInf else NegInf)"
| "js_div a b = NaN"

text \<open>\<^verbatim>\<open>Math.abs\<close>\<close>

fun Math_abs :: "jsnum \<Rightarrow> jsnum" where
  "Math_abs NaN = NaN"
| "Math_abs NegInf = PosInf"
| "Math_abs PosInf = PosInf"
| "Math_abs (Fin x) = Fin \<bar>x\<bar>"

text \<open>\<^verbatim>\<open>Math.round\<close>: the nearest integer, a tie going up.\<close>

fun Math_round :: "jsnum \<Rightarrow> jsnum" where
  "Math_round (Fin x) = Fin (of_int \<lfloor>x + 1 / 2\<rfloor>)"
| "Math_round a = a"

text \<open>\<^verbatim>\<open>a < b\<close> and \<^verbatim>\<open>a >= b\<close>: false as soon as an operand is \<open>NaN\<close>.\<close>

fun js_lt :: "jsnum \<Rightarrow> jsnum \<Rightarrow> bool" where
  "js_lt NaN _ = False"
| "js_lt _ NaN = False"
| "js_lt (Fin a) (Fin b) = (a < b)"
| "js_lt NegInf b = (b \<noteq> NegInf)"
| "js_lt a PosInf = (a \<noteq> PosInf)"
| "js_lt a b = False"

fun js_ge :: "jsnum \<Rightarrow> jsnum \<Rightarrow> bool" where
  "js_ge NaN _ = False"
| "js_ge _ NaN = False"
| "js_ge a b = (\<not> js_lt a b)"

subsection \<open>\<^verbatim>\<open>parseFloat\<close>\<close>

text \<open>
  \<^verbatim>\<open>parseFloat(string)\<close> skips leading white space and reads the longest prefix that is a
  decimal literal: an optional sign, then \<^verbatim>\<open>Infinity\<close> or digits with an optional fraction
  and an optional exponent; what follows the literal is ignored, and without a literal the
  result is \<open>NaN\<close>. Strings are byte strings here, so white space is the ASCII white space.
\<close>

definition is_ws :: "char \<Rightarrow> bool" where
  "is_ws c \<longleftrightarrow> c \<in> {CHR 0x09, CHR 0x0A, CHR 0x0B, CHR 0x0C, CHR 0x0D, CHR 0x20}"

definition is_digit :: "char \<Rightarrow> bool" where
  "is_digit c \<longleftrightarrow> c \<in> set ''0123456789''"

definition digit_val :: "char \<Rightarrow> nat" where
  "digit_val c = of_char c - 48"

definition digits_val :: "string \<Rightarrow> nat" where
  "digits_val ds = foldl (\<lambda>n c. 10 * n + digit_val c) 0 ds"

definition exp_digits :: "int \<Rightarrow> string \<Rightarrow> int" where
  "exp_digits sg u = (let ds = takeWhile is_digit u
     in if ds = [] then 0 else sg * int (digits_val ds))"

definition exponent_part :: "string \<Rightarrow> int" where
  "exponent_part r = (case r of [] \<Rightarrow> 0
     | c # t \<Rightarrow>
        if c = CHR ''e'' \<or> c = CHR ''E'' then
          (case t of [] \<Rightarrow> 0
           | d # u \<Rightarrow> if d = CHR ''+'' then exp_digits 1 u
                      else if d = CHR ''-'' then exp_digits (- 1) u
                      else exp_digits 1 t)
        else 0)"

definition parse_unsigned :: "string \<Rightarrow> jsnum" where
  "parse_unsigned s =
     (if take 8 s = ''Infinity'' then PosInf
      else
        (let ip = takeWhile is_digit s;
             r1 = dropWhile is_digit s;
             dot = (case r1 of [] \<Rightarrow> False | c # _ \<Rightarrow> c = CHR ''.'');
             fp = (if dot then takeWhile is_digit (tl r1) else []);
             r2 = (if dot then dropWhile is_digit (tl r1) else r1)
         in if ip = [] \<and> fp = [] then NaN
            else to_double (of_nat (digits_val (ip @ fp))
                   * 10 powi (exponent_part r2 - int (length fp)))))"

definition parseFloat :: "string \<Rightarrow> jsnum" where
  "parseFloat s = (case dropWhile is_ws s of [] \<Rightarrow> NaN
     | c # u \<Rightarrow> if c = CHR ''+'' then parse_unsigned u
                else if c = CHR ''-'' then js_neg (parse_unsigned u)
                else parse_unsigned (c # u))"

section \<open>Values, questions and answers\<close>

text \<open>
  The values a question's \<^verbatim>\<open>correctAnswer\<close> and a user's \<^verbatim>\<open>answer\<close> range over
  (\<^verbatim>\<open>number | number[] | boolean | string\<close>, and \<^verbatim>\<open>null\<close> for an answer not given).
\<close>

datatype jsval = JNull | JNumber jsnum | JBoolean bool | JString string | JArray "jsnum list"

datatype question_type = McqSingle | McqMultiple | TrueFalse | Numeric

text \<open>
  \<^verbatim>\<open>interface Question\<close>; \<open>qid\<close> is its \<^verbatim>\<open>id\<close>. The fields that are only displayed
  (\<^verbatim>\<open>question\<close>, \<^verbatim>\<open>explanation\<close>, \<^verbatim>\<open>category\<close>, \<^verbatim>\<open>difficulty\<close>) are left out.
\<close>

record question =
  qid :: string
  qtype :: question_type
  options :: "string list option"
  correctAnswer :: jsval

text \<open>\<^verbatim>\<open>interface UserAnswer\<close>\<close>

record user_answer =
  questionId :: string
  answer :: jsval
  timeSpent :: nat
  flagged :: bool

text \<open>
  \<^verbatim>\<open>interface Test\<close>; \<open>duration\<close> is in minutes (the editor stores an integer),
  \<open>passingScore\<close> is optional.
\<close>

record test =
  test_id :: string
  title :: string
  duration :: int
  questionBankId :: string
  shuffleQuestions :: bool
  passingScore :: "jsnum option"

datatype error = TypeError | FirebaseError

text \<open>
  The conversion of a number to a string is the JavaScript engine's, not the
  repository's: the functions that need its digits take it as the parameter \<open>ts\<close>.
\<close>

type_synonym number_to_string = "jsnum \<Rightarrow> string"

text \<open>\<^verbatim>\<open>a === b\<close>: two array objects are never the same object here.\<close>

fun strict_eq :: "jsval \<Rightarrow> jsval \<Rightarrow> bool" where
  "strict_eq JNull JNull = True"
| "strict_eq (JNumber a) (JNumber b) = (a \<noteq> NaN \<and> a = b)"
| "strict_eq (JBoolean a) (JBoolean b) = (a = b)"
| "strict_eq (JString a) (JString b) = (a = b)"
| "strict_eq _ _ = False"

text \<open>
  \<^verbatim>\<open>v.length\<close>: \<open>None\<close> is \<^verbatim>\<open>undefined\<close> (numbers and booleans have no such property);
  reading a property of \<^verbatim>\<open>null\<close> throws.
\<close>

fun js_length :: "jsval \<Rightarrow> error + nat option" where
  "js_length JNull = Inl TypeError"
| "js_length (JArray xs) = Inr (Some (length xs))"
| "js_length (JString s) = Inr (Some (length s))"
| "js_length _ = Inr None"

fun string_includes :: "string \<Rightarrow> string \<Rightarrow> bool" where
  "string_includes [] n = (n = [])"
| "string_includes (c # cs) n = (take (length n) (c # cs) = n \<or> string_includes cs n)"

text \<open>
  \<^verbatim>\<open>v.includes(a)\<close>: membership in an array (where \<open>NaN\<close> is found), a substring search
  for the digits of \<open>a\<close> in a string; other values have no such method.
\<close>

fun js_includes :: "number_to_string \<Rightarrow> jsval \<Rightarrow> jsnum \<Rightarrow> error + bool" where
  "js_includes ts (JArray xs) a = Inr (a \<in> set xs)"
| "js_includes ts (JString s) a = Inr (string_includes s (ts a))"
| "js_includes ts _ a = Inl TypeError"

text \<open>\<^verbatim>\<open>cs.every(a => v.includes(a))\<close> on the elements of an array.\<close>

fun every_includes :: "number_to_string \<Rightarrow> jsval \<Rightarrow> jsnum list \<Rightarrow> error + bool" where
  "every_includes ts v [] = Inr True"
| "every_includes ts v (a # as) =
     (case js_includes ts v a of
        Inl e \<Rightarrow> Inl e
      | Inr b \<Rightarrow> if b then every_includes ts v as else Inr False)"

text \<open>
  \<^verbatim>\<open>parseFloat(v)\<close> on a value that need not be a string: the value is converted to a string
  first. For a number \<open>x\<close> the digits of the conversion denote \<open>x\<close> again, so the result is
  \<open>x\<close>; an array is joined with commas, so the result is that of its first element;
  \<^verbatim>\<open>true\<close>, \<^verbatim>\<open>false\<close> and \<^verbatim>\<open>null\<close> start no literal.
\<close>

fun parseFloat_val :: "jsval \<Rightarrow> jsnum" where
  "parseFloat_val (JString s) = parseFloat s"
| "parseFloat_val (JNumber x) = x"
| "parseFloat_val (JArray (x # xs)) = x"
| "parseFloat_val _ = NaN"

section \<open>Scoring\<close>

text \<open>
  The body of the \<^verbatim>\<open>switch (question.type)\<close> of \<^verbatim>\<open>calculateScore\<close>, for the answer \<open>a\<close>
  of a question (not \<^verbatim>\<open>null\<close> there): the value of \<^verbatim>\<open>isCorrect\<close>, or the exception thrown.
  The literal \<^verbatim>\<open>0.001\<close> is the double nearest to one thousandth.
\<close>

definition isCorrect :: "number_to_string \<Rightarrow> question \<Rightarrow> jsval \<Rightarrow> error + bool" where
  "isCorrect ts q a = (case qtype q of
       McqSingle \<Rightarrow> Inr (strict_eq a (correctAnswer q))
     | McqMultiple \<Rightarrow>
         (case js_length (correctAnswer q) of
            Inl e \<Rightarrow> Inl e
          | Inr n \<Rightarrow>
             (case js_length a of
                Inl e \<Rightarrow> Inl e
              | Inr m \<Rightarrow>
                 if n \<noteq> m then Inr False
                 else (case correctAnswer q of
                         JArray cs \<Rightarrow> every_includes ts a cs
                       | _ \<Rightarrow> Inl TypeError)))
     | TrueFalse \<Rightarrow> Inr (strict_eq a (correctAnswer q))
     | Numeric \<Rightarrow>
         (let numericAnswer = parseFloat_val a;
              correctNumeric = parseFloat_val (correctAnswer q)
          in Inr (js_lt (Math_abs (js_sub numericAnswer correctNumeric))
                        (to_double (1 / 1000)))))"

text \<open>
  \<^verbatim>\<open>questions.forEach(question => ...)\<close> with the counter \<^verbatim>\<open>correctAnswers\<close>: a question
  whose answer is missing or \<^verbatim>\<open>null\<close> is left (\<^verbatim>\<open>return\<close>), the others are checked.
\<close>

fun forEach_question ::
  "number_to_string \<Rightarrow> user_answer list \<Rightarrow> question list \<Rightarrow> nat \<Rightarrow> error + nat" where
  "forEach_question ts uas [] correctAnswers = Inr correctAnswers"
| "forEach_question ts uas (q # qs) correctAnswers =
     (case find (\<lambda>ua. questionId ua = qid q) uas of
        None \<Rightarrow> forEach_question ts uas qs correctAnswers
      | Some userAnswer \<Rightarrow>
          if answer userAnswer = JNull then forEach_question ts uas qs correctAnswers
          else (case isCorrect ts q (answer userAnswer) of
                  Inl e \<Rightarrow> Inl e
                | Inr b \<Rightarrow>
                    forEach_question ts uas qs
                      (if b then correctAnswers + 1 else correctAnswers)))"

text \<open>\<^verbatim>\<open>Math.round((correctAnswers / questions.length) * 100)\<close>\<close>

definition percentage :: "nat \<Rightarrow> nat \<Rightarrow> jsnum" where
  "percentage c n = Math_round (js_mul (js_div (Fin (of_nat c)) (Fin (of_nat n))) (Fin 100))"

definition calculateScore ::
  "number_to_string \<Rightarrow> question list \<Rightarrow> user_answer list \<Rightarrow> error + jsnum" where
  "calculateScore ts questions userAnswers =
     (case forEach_question ts userAnswers questions 0 of
        Inl e \<Rightarrow> Inl e
      | Inr correctAnswers \<Rightarrow> Inr (percentage correctAnswers (length questions)))"

text \<open>
  \<^verbatim>\<open>score >= (test.passingScore || 70)\<close>: the operator \<^verbatim>\<open>||\<close> takes its right operand when
  the left one is \<^verbatim>\<open>undefined\<close>, \<open>0\<close> or \<open>NaN\<close>.
\<close>

definition passing_or_default :: "jsnum option \<Rightarrow> jsnum" where
  "passing_or_default p = (case p of
       None \<Rightarrow> Fin 70
     | Some x \<Rightarrow> if x = NaN \<or> x = Fin 0 then Fin 70 else x)"

definition passed :: "test \<Rightarrow> jsnum \<Rightarrow> bool" where
  "passed t score = js_ge score (passing_or_default (passingScore t))"

section \<open>The answer store\<close>

text \<open>
  \<^verbatim>\<open>updateAnswer(questionId, answer: any)\<close> and \<^verbatim>\<open>toggleFlag(questionId)\<close>: the state
  updaters \<^verbatim>\<open>prev => prev.map(...)\<close> applied to the list of answers.
\<close>

definition updateAnswer :: "string \<Rightarrow> jsval \<Rightarrow> user_answer list \<Rightarrow> user_answer list" where
  "updateAnswer i a prev = map (\<lambda>ua. if questionId ua = i then ua\<lparr>answer := a\<rparr> else ua) prev"

definition toggleFlag :: "string \<Rightarrow> user_answer list \<Rightarrow> user_answer list" where
  "toggleFlag i prev =
     map (\<lambda>ua. if questionId ua = i then ua\<lparr>flagged := \<not> flagged ua\<rparr> else ua) prev"

section \<open>The document store\<close>

text \<open>
  The Firestore collections the runner reads and writes. A collection that is only read is
  a map from document ids to documents; \<^verbatim>\<open>testAttempts\<close> and \<^verbatim>\<open>activityLogs\<close> are the lists
  of their documents in the order of creation: \<^verbatim>\<open>addDoc\<close> creates a document under a new
  id, so a document is identified by its position. The time stamps of an attempt
  (\<^verbatim>\<open>startedAt\<close>, \<^verbatim>\<open>completedAt\<close>) hold the wall-clock time of the write and are left out.
\<close>

datatype attempt_status = In_progress | Completed

record attempt =
  userId :: string
  userName :: string
  attempt_testId :: string
  testTitle :: "string option"
  status :: attempt_status
  answers :: "user_answer list"
  score :: "jsnum option"
  attempt_timeSpent :: jsnum
  totalQuestions :: "nat option"
  answeredQuestions :: "nat option"

record activity =
  log_userId :: string
  actionType :: string
  log_testId :: string
  log_score :: jsnum

datatype collection = Tests | QuestionBanks | Questions | TestAttempts | ActivityLogs

text \<open>
  A request can be rejected (security rules, network): \<open>read_fails\<close> and \<open>write_fails\<close>
  say for which collections.
\<close>

record firestore =
  tests :: "string \<rightharpoonup> test"
  questionBanks :: "string \<rightharpoonup> string list"
  questions_docs :: "string \<rightharpoonup> question"
  testAttempts :: "attempt list"
  activityLogs :: "activity list"
  read_fails :: "collection \<Rightarrow> bool"
  write_fails :: "collection \<Rightarrow> bool"

definition getDoc_test :: "firestore \<Rightarrow> string \<Rightarrow> error + test option" where
  "getDoc_test d i = (if read_fails d Tests then Inl FirebaseError else Inr (tests d i))"

definition getDoc_bank :: "firestore \<Rightarrow> string \<Rightarrow> error + string list option" where
  "getDoc_bank d i =
     (if read_fails d QuestionBanks then Inl FirebaseError else Inr (questionBanks d i))"

definition getDoc_question :: "firestore \<Rightarrow> string \<Rightarrow> error + question option" where
  "getDoc_question d i =
     (if read_fails d Questions then Inl FirebaseError else Inr (questions_docs d i))"

text \<open>
  The query \<^verbatim>\<open>where('userId', '==', uid), where('testId', '==', testId),
  where('status', '==', 'completed')\<close> on \<^verbatim>\<open>testAttempts\<close>.
\<close>

definition completed_attempts :: "firestore \<Rightarrow> string \<Rightarrow> string \<Rightarrow> attempt list" where
  "completed_attempts d u t =
     filter (\<lambda>a. userId a = u \<and> attempt_testId a = t \<and> status a = Completed) (testAttempts d)"

definition getDocs_completed :: "firestore \<Rightarrow> string \<Rightarrow> string \<Rightarrow> error + attempt list" where
  "getDocs_completed d u t =
     (if read_fails d TestAttempts then Inl FirebaseError else Inr (completed_attempts d u t))"

definition addDoc_attempt :: "firestore \<Rightarrow> attempt \<Rightarrow> error + firestore" where
  "addDoc_attempt d a =
     (if write_fails d TestAttempts then Inl FirebaseError
      else Inr (d\<lparr>testAttempts := testAttempts d @ [a]\<rparr>))"

definition addDoc_activity :: "firestore \<Rightarrow> activity \<Rightarrow> error + firestore" where
  "addDoc_activity d a =
     (if write_fails d ActivityLogs then Inl FirebaseError
      else Inr (d\<lparr>activityLogs := activityLogs d @ [a]\<rparr>))"

section \<open>The test runner\<close>

record user =
  uid :: string
  name :: string
  email :: string

text \<open>
  The component: what it is given (\<open>userData\<close> from the authentication context, \<open>testId\<close>
  from the location, the empty string when there is none), its React state, and what it
  acts on: the timeout the timer effect has set and not cleared (\<open>pending\<close>, with the value
  it will store), the document store, the toasts shown and the route navigated to (\<open>None\<close>
  while the runner stays mounted).
\<close>

record runner =
  userData :: "user option"
  testId :: string
  test :: "test option"
  questions :: "question list"
  currentQuestion :: nat
  timeRemaining :: int
  userAnswers :: "user_answer list"
  showSubmitWarning :: bool
  testSubmitted :: bool
  loading :: bool
  testStarted :: bool
  pending :: "int option"
  db :: firestore
  toasts :: "string list"
  route :: "string option"

definition initial :: "user option \<Rightarrow> string \<Rightarrow> firestore \<Rightarrow> runner" where
  "initial u t d = \<lparr>userData = u, testId = t, test = None, questions = [],
     currentQuestion = 0, timeRemaining = 0, userAnswers = [], showSubmitWarning = False,
     testSubmitted = False, loading = True, testStarted = False, pending = None,
     db = d, toasts = [], route = None\<rparr>"

definition toast :: "string \<Rightarrow> runner \<Rightarrow> runner" where
  "toast t s = s\<lparr>toasts := toasts s @ [t]\<rparr>"

text \<open>\<^verbatim>\<open>navigate(path)\<close> leaves the page: the component unmounts and its timeout is cleared.\<close>

definition navigate :: "string \<Rightarrow> runner \<Rightarrow> runner" where
  "navigate p s = s\<lparr>route := Some p, pending := None\<rparr>"

text \<open>\<^verbatim>\<open>userData.name || userData.email\<close>\<close>

definition display_name :: "user \<Rightarrow> string" where
  "display_name u = (if name u = [] then email u else name u)"

text \<open>
  The loop \<^verbatim>\<open>for (const questionId of questionBank.questions)\<close> of \<^verbatim>\<open>fetchTestData\<close>: an
  id without a document is skipped.
\<close>

fun load_questions :: "firestore \<Rightarrow> string list \<Rightarrow> error + question list" where
  "load_questions d [] = Inr []"
| "load_questions d (i # is) =
     (case getDoc_question d i of
        Inl e \<Rightarrow> Inl e
      | Inr doc \<Rightarrow>
         (case load_questions d is of
            Inl e \<Rightarrow> Inl e
          | Inr qs \<Rightarrow> Inr (case doc of None \<Rightarrow> qs | Some q \<Rightarrow> q # qs)))"

text \<open>
  \<^verbatim>\<open>fetchTestData\<close>. The call \<^verbatim>\<open>questionsData.sort(() => Math.random() - 0.5)\<close> rearranges the
  list as the engine's sort does under the comparisons drawn in this run: the function
  \<open>sort_random\<close>, a parameter. \<open>load_failed\<close> is the \<^verbatim>\<open>catch\<close> block; every exit passes
  \<^verbatim>\<open>finally { setLoading(false) }\<close>.
\<close>

definition load_failed :: "runner \<Rightarrow> runner" where
  "load_failed s = (navigate ''/student/tests'' (toast ''Error'' s))\<lparr>loading := False\<rparr>"

definition fetchTestData :: "(question list \<Rightarrow> question list) \<Rightarrow> runner \<Rightarrow> runner" where
  "fetchTestData sort_random s0 =
     (let s = s0\<lparr>loading := True\<rparr> in
      case getDoc_test (db s) (testId s) of
        Inl e \<Rightarrow> load_failed s
      | Inr None \<Rightarrow> (navigate ''/student/tests'' (toast ''Error'' s))\<lparr>loading := False\<rparr>
      | Inr (Some testData) \<Rightarrow>
         (let s1 = s\<lparr>test := Some testData\<rparr> in
          case userData s1 of
            None \<Rightarrow> load_failed s1
          | Some u \<Rightarrow>
             (case getDocs_completed (db s1) (uid u) (testId s1) of
                Inl e \<Rightarrow> load_failed s1
              | Inr docs \<Rightarrow>
                 if 0 < length docs
                 then (navigate ''/student/tests''
                         (toast ''Test Already Completed'' s1))\<lparr>loading := False\<rparr>
                 else
                  (case getDoc_bank (db s1) (questionBankId testData) of
                     Inl e \<Rightarrow> load_failed s1
                   | Inr None \<Rightarrow>
                       (navigate ''/student/tests'' (toast ''Error'' s1))\<lparr>loading := False\<rparr>
                   | Inr (Some ids) \<Rightarrow>
                      (case load_questions (db s1) ids of
                         Inl e \<Rightarrow> load_failed s1
                       | Inr loaded \<Rightarrow>
                          (let questionsData =
                                 (if shuffleQuestions testData then sort_random loaded
                                  else loaded)
                           in s1\<lparr>questions := questionsData,
                                 timeRemaining := duration testData * 60,
                                 userAnswers :=
                                   map (\<lambda>q. \<lparr>questionId = qid q, answer = JNull,
                                              timeSpent = 0, flagged = False\<rparr>)
                                       questionsData,
                                 loading := False\<rparr>))))))"

text \<open>
  \<^verbatim>\<open>startTest\<close>: the document it adds to \<^verbatim>\<open>testAttempts\<close>, and the function.
\<close>

definition in_progress_doc :: "runner \<Rightarrow> user \<Rightarrow> attempt" where
  "in_progress_doc s u =
     \<lparr>userId = uid u, userName = display_name u, attempt_testId = testId s,
      testTitle = map_option title (test s), status = In_progress,
      answers = [], score = None, attempt_timeSpent = Fin 0,
      totalQuestions = None, answeredQuestions = None\<rparr>"

definition startTest :: "runner \<Rightarrow> runner" where
  "startTest s =
     (case userData s of
        None \<Rightarrow> toast ''Error'' s
      | Some u \<Rightarrow>
         (case addDoc_attempt (db s) (in_progress_doc s u) of
            Inl e \<Rightarrow> toast ''Error'' s
          | Inr d \<Rightarrow> toast ''Test Started'' (s\<lparr>db := d, testStarted := True\<rparr>)))"

text \<open>
  \<^verbatim>\<open>handleSubmitTest\<close>. \<open>minutes_used\<close> is its \<^verbatim>\<open>timeSpent\<close>,
  \<^verbatim>\<open>(test?.duration * 60 - timeRemaining) / 60\<close>; \<open>completed_doc\<close> and \<open>activity_doc\<close> are the
  documents it adds to \<^verbatim>\<open>testAttempts\<close> and to \<^verbatim>\<open>activityLogs\<close>. Its two writes and the
  state update run one after the other; whatever throws inside \<^verbatim>\<open>try\<close> ends in the
  \<^verbatim>\<open>catch\<close> block, which shows a toast and leaves \<^verbatim>\<open>testSubmitted\<close> as it is.
\<close>

definition minutes_used :: "runner \<Rightarrow> jsnum" where
  "minutes_used s =
     js_div (js_sub (js_mul (case test s of None \<Rightarrow> NaN
                               | Some t \<Rightarrow> Fin (of_int (duration t))) (Fin 60))
                    (Fin (of_int (timeRemaining s))))
            (Fin 60)"

definition completed_doc :: "runner \<Rightarrow> user \<Rightarrow> jsnum \<Rightarrow> attempt" where
  "completed_doc s u sc =
     \<lparr>userId = uid u, userName = display_name u, attempt_testId = testId s,
      testTitle = map_option title (test s), status = Completed,
      answers = userAnswers s, score = Some sc,
      attempt_timeSpent = Math_round (minutes_used s),
      totalQuestions = Some (length (questions s)),
      answeredQuestions = Some (length (filter (\<lambda>ua. answer ua \<noteq> JNull) (userAnswers s)))\<rparr>"

definition activity_doc :: "runner \<Rightarrow> user \<Rightarrow> jsnum \<Rightarrow> activity" where
  "activity_doc s u sc =
     \<lparr>log_userId = uid u, actionType = ''test_complete'', log_testId = testId s,
      log_score = sc\<rparr>"

definition handleSubmitTest :: "number_to_string \<Rightarrow> runner \<Rightarrow> runner" where
  "handleSubmitTest ts s =
     (case calculateScore ts (questions s) (userAnswers s) of
        Inl e \<Rightarrow> toast ''Error'' s
      | Inr sc \<Rightarrow>
         (case userData s of
            None \<Rightarrow> toast ''Error'' s
          | Some u \<Rightarrow>
             (case addDoc_attempt (db s) (completed_doc s u sc) of
                Inl e \<Rightarrow> toast ''Error'' s
              | Inr d1 \<Rightarrow>
                 (case addDoc_activity d1 (activity_doc s u sc) of
                    Inl e \<Rightarrow> toast ''Error'' (s\<lparr>db := d1\<rparr>)
                  | Inr d2 \<Rightarrow>
                     toast ''Test Submitted!'' (s\<lparr>db := d2, testSubmitted := True\<rparr>)))))"

subsection \<open>The timer effect\<close>

text \<open>
  The effect with the dependencies \<^verbatim>\<open>[timeRemaining, testSubmitted, testStarted]\<close>: it runs
  again after a render in which one of them has changed, its previous timeout cleared
  first. Its first branch sets the timeout that will store \<^verbatim>\<open>timeRemaining - 1\<close>; its
  second branch submits.
\<close>

definition timer_deps :: "runner \<Rightarrow> int \<times> bool \<times> bool" where
  "timer_deps s = (timeRemaining s, testSubmitted s, testStarted s)"

definition timer_effect :: "number_to_string \<Rightarrow> runner \<Rightarrow> runner" where
  "timer_effect ts s =
     (if 0 < timeRemaining s \<and> \<not> testSubmitted s \<and> testStarted s
      then s\<lparr>pending := Some (timeRemaining s - 1)\<rparr>
      else if timeRemaining s = 0 \<and> testStarted s then handleSubmitTest ts s
      else s)"

text \<open>
  \<open>rerender ts prev s\<close>: the state has gone from \<open>prev\<close> to \<open>s\<close>; the effect runs if its
  dependencies differ, and again if that run changed them.
\<close>

function rerender :: "number_to_string \<Rightarrow> runner \<Rightarrow> runner \<Rightarrow> runner" where
  "rerender ts prev s =
     (if route s \<noteq> None \<or> timer_deps prev = timer_deps s then s
      else rerender ts s (timer_effect ts (s\<lparr>pending := None\<rparr>)))"
  by pat_completeness auto
termination
proof (relation "measure (\<lambda>(ts, prev, s).
    if timer_deps prev = timer_deps s then 0 else if testSubmitted s then 1 else (2::nat))")
  show "wf (measure (\<lambda>(ts, prev, s).
    if timer_deps prev = timer_deps s then 0 else if testSubmitted s then 1 else (2::nat)))"
    by simp
next
  fix ts :: number_to_string and prev s :: runner
  assume "\<not> (route s \<noteq> None \<or> timer_deps prev = timer_deps s)"
  then show "((ts, s, timer_effect ts (s\<lparr>pending := None\<rparr>)), (ts, prev, s))
    \<in> measure (\<lambda>(ts, prev, s).
        if timer_deps prev = timer_deps s then 0 else if testSubmitted s then 1 else (2::nat))"
    by (auto simp: timer_deps_def timer_effect_def handleSubmitTest_def toast_def Let_def
        split: sum.splits option.splits if_splits)
qed

subsection \<open>Screens and events\<close>

text \<open>The early returns of the render function, in their order.\<close>

datatype screen = Loading | NotAvailable | Intro | Results | Running

definition screen :: "runner \<Rightarrow> screen" where
  "screen s =
     (if loading s then Loading
      else if test s = None \<or> questions s = [] then NotAvailable
      else if \<not> testStarted s then Intro
      else if testSubmitted s then Results
      else Running)"

text \<open>
  What can happen to a mounted runner: its timeout fires, or the user acts on a control
  that the current screen renders. The buttons that only leave the page are left out: they
  unmount the runner.
\<close>

datatype event =
    TimerFires
  | StartClicked
  | RadioChosen nat
  | CheckboxChanged nat bool
  | NumericTyped string
  | TrueFalseChosen bool
  | FlagClicked
  | QuestionClicked nat
  | PreviousClicked
  | NextClicked
  | SubmitClicked
  | ConfirmClicked
  | ContinueClicked

text \<open>
  \<^verbatim>\<open>(currentAnswer?.answer as number[]) || []\<close> as the list that is spread into the new
  answer: \<open>None\<close> where spreading throws. (Spreading a non-empty string gives its
  characters; the runner stores no string for a multiple-choice question.)
\<close>

fun currentAnswers :: "jsval \<Rightarrow> jsnum list option" where
  "currentAnswers (JArray xs) = Some xs"
| "currentAnswers JNull = Some []"
| "currentAnswers (JNumber x) = (if x = NaN \<or> x = Fin 0 then Some [] else None)"
| "currentAnswers (JBoolean b) = (if b then None else Some [])"
| "currentAnswers (JString s) = (if s = [] then Some [] else None)"

definition on_question :: "runner \<Rightarrow> (question \<Rightarrow> runner) \<Rightarrow> runner" where
  "on_question s f =
     (if screen s = Running \<and> currentQuestion s < length (questions s)
      then f (questions s ! currentQuestion s) else s)"

definition has_option :: "question \<Rightarrow> nat \<Rightarrow> bool" where
  "has_option q i = (case options q of None \<Rightarrow> False | Some os \<Rightarrow> i < length os)"

definition handle :: "number_to_string \<Rightarrow> event \<Rightarrow> runner \<Rightarrow> runner" where
  "handle ts ev s = (case ev of
       TimerFires \<Rightarrow>
         (case pending s of None \<Rightarrow> s
          | Some t \<Rightarrow> s\<lparr>timeRemaining := t, pending := None\<rparr>)
     | StartClicked \<Rightarrow> if screen s = Intro then startTest s else s
     | RadioChosen i \<Rightarrow>
         on_question s (\<lambda>q.
           if qtype q = McqSingle \<and> has_option q i
           then s\<lparr>userAnswers := updateAnswer (qid q) (JNumber (Fin (of_nat i))) (userAnswers s)\<rparr>
           else s)
     | CheckboxChanged i checked \<Rightarrow>
         on_question s (\<lambda>q.
           if qtype q = McqMultiple \<and> has_option q i
           then (case currentAnswers
                        (case find (\<lambda>ua. questionId ua = qid q) (userAnswers s) of
                           None \<Rightarrow> JNull | Some ua \<Rightarrow> answer ua) of
                   None \<Rightarrow> s
                 | Some xs \<Rightarrow>
                     s\<lparr>userAnswers := updateAnswer (qid q)
                         (JArray (if checked then xs @ [Fin (of_nat i)]
                                  else filter (\<lambda>a. a \<noteq> Fin (of_nat i)) xs))
                         (userAnswers s)\<rparr>)
           else s)
     | NumericTyped v \<Rightarrow>
         on_question s (\<lambda>q.
           if qtype q = Numeric
           then s\<lparr>userAnswers := updateAnswer (qid q) (JString v) (userAnswers s)\<rparr>
           else s)
     | TrueFalseChosen b \<Rightarrow>
         on_question s (\<lambda>q.
           if qtype q = TrueFalse
           then s\<lparr>userAnswers := updateAnswer (qid q) (JBoolean b) (userAnswers s)\<rparr>
           else s)
     | FlagClicked \<Rightarrow>
         on_question s (\<lambda>q. s\<lparr>userAnswers := toggleFlag (qid q) (userAnswers s)\<rparr>)
     | QuestionClicked i \<Rightarrow>
         if screen s = Running \<and> i < length (questions s)
         then s\<lparr>currentQuestion := i\<rparr> else s
     | PreviousClicked \<Rightarrow>
         if screen s = Running \<and> currentQuestion s \<noteq> 0
         then s\<lparr>currentQuestion := currentQuestion s - 1\<rparr> else s
     | NextClicked \<Rightarrow>
         if screen s = Running \<and> currentQuestion s \<noteq> length (questions s) - 1
         then s\<lparr>currentQuestion := min (length (questions s) - 1) (currentQuestion s + 1)\<rparr>
         else s
     | SubmitClicked \<Rightarrow>
         if screen s = Running \<and> currentQuestion s = length (questions s) - 1
         then s\<lparr>showSubmitWarning := True\<rparr> else s
     | ConfirmClicked \<Rightarrow>
         if screen s = Running \<and> showSubmitWarning s then handleSubmitTest ts s else s
     | ContinueClicked \<Rightarrow>
         if screen s = Running \<and> showSubmitWarning s
         then s\<lparr>showSubmitWarning := False\<rparr> else s)"

text \<open>An event is handled, then the component renders again and its effect may run.\<close>

definition dispatch :: "number_to_string \<Rightarrow> event \<Rightarrow> runner \<Rightarrow> runner" where
  "dispatch ts ev s = (if route s \<noteq> None then s else rerender ts s (handle ts ev s))"

fun run :: "number_to_string \<Rightarrow> event list \<Rightarrow> runner \<Rightarrow> runner" where
  "run ts [] s = s"
| "run ts (ev # evs) s = run ts evs (dispatch ts ev s)"

text \<open>
  Mounting: the effect \<^verbatim>\<open>if (testId && userData) fetchTestData() else navigate(...)\<close> on
  the initial state.
\<close>

definition mount ::
  "number_to_string \<Rightarrow> (question list \<Rightarrow> question list) \<Rightarrow> user option \<Rightarrow> string \<Rightarrow> firestore
    \<Rightarrow> runner" where
  "mount ts sort_random u t d =
     (let s0 = initial u t d
      in if t \<noteq> [] \<and> u \<noteq> None then rerender ts s0 (fetchTestData sort_random s0)
         else navigate ''/student/tests'' s0)"

section \<open>Notions used in the statements\<close>

text \<open>
  A question counts for the score when its first matching answer entry holds a value that
  the check accepts; \<open>check_throws\<close> says that the check of a question throws.
\<close>

definition correctly_answered :: "number_to_string \<Rightarrow> user_answer list \<Rightarrow> question \<Rightarrow> bool" where
  "correctly_answered ts uas q =
     (case find (\<lambda>ua. questionId ua = qid q) uas of
        None \<Rightarrow> False
      | Some ua \<Rightarrow> answer ua \<noteq> JNull \<and> isCorrect ts q (answer ua) = Inr True)"

definition check_throws :: "number_to_string \<Rightarrow> user_answer list \<Rightarrow> question \<Rightarrow> bool" where
  "check_throws ts uas q =
     (case find (\<lambda>ua. questionId ua = qid q) uas of
        None \<Rightarrow> False
      | Some ua \<Rightarrow> answer ua \<noteq> JNull \<and> isl (isCorrect ts q (answer ua)))"

text \<open>
  The score as the specification words it, \<open>round(100 \<times> correctCount / totalQuestions)\<close>, in
  exact arithmetic.
\<close>

definition spec_score :: "nat \<Rightarrow> nat \<Rightarrow> int" where
  "spec_score c n = round (100 * of_nat c / (of_nat n :: rat))"



section \<open>A test of five questions\<close>

definition q1 :: question where
  "q1 = \<lparr>qid = ''q1'', qtype = McqSingle, options = Some [''2'', ''3'', ''5'', ''7''],
     correctAnswer = JNumber (Fin 1)\<rparr>"

definition q2 :: question where
  "q2 = \<lparr>qid = ''q2'', qtype = McqSingle, options = Some [''a'', ''b'', ''c'', ''d''],
     correctAnswer = JNumber (Fin 3)\<rparr>"

definition q3 :: question where
  "q3 = \<lparr>qid = ''q3'', qtype = McqMultiple, options = Some [''a'', ''b'', ''c'', ''d''],
     correctAnswer = JArray [Fin 0, Fin 2]\<rparr>"

definition q4 :: question where
  "q4 = \<lparr>qid = ''q4'', qtype = TrueFalse, options = None, correctAnswer = JBoolean True\<rparr>"

definition q5 :: question where
  "q5 = \<lparr>qid = ''q5'', qtype = Numeric, options = None, correctAnswer = JNumber (Fin 42)\<rparr>"

definition five_questions :: "question list" where
  "five_questions = [q1, q2, q3, q4, q5]"

definition entry :: "string \<Rightarrow> jsval \<Rightarrow> user_answer" where
  "entry i a = \<lparr>questionId = i, answer = a, timeSpent = 0, flagged = False\<rparr>"

text \<open>Three correct answers, a wrong one, and a question left open.\<close>

definition five_answers :: "user_answer list" where
  "five_answers = [entry ''q1'' (JNumber (Fin 1)), entry ''q2'' (JNumber (Fin 0)),
     entry ''q3'' (JArray [Fin 0, Fin 2]), entry ''q4'' JNull,
     entry ''q5'' (JString ''42.0009'')]"

definition no_digits :: number_to_string where
  "no_digits x = []"

text \<open>A user, a one-minute test on the five questions, and a store that holds them.\<close>

definition demo_user :: user where
  "demo_user = \<lparr>uid = ''u1'', name = ''Ada'', email = ''ada@example.org''\<rparr>"

definition demo_test :: test where
  "demo_test = \<lparr>test_id = ''t1'', title = ''Aptitude'', duration = 1,
     questionBankId = ''b1'', shuffleQuestions = False, passingScore = Some (Fin 70)\<rparr>"

definition demo_store :: firestore where
  "demo_store = \<lparr>tests = [''t1'' \<mapsto> demo_test],
     questionBanks = [''b1'' \<mapsto> [''q1'', ''q2'', ''q3'', ''q4'', ''q5'']],
     questions_docs = [''q1'' \<mapsto> q1, ''q2'' \<mapsto> q2, ''q3'' \<mapsto> q3, ''q4'' \<mapsto> q4, ''q5'' \<mapsto> q5],
     testAttempts = [], activityLogs = [],
     read_fails = (\<lambda>c. False), write_fails = (\<lambda>c. False)\<rparr>"

definition demo_runner :: runner where
  "demo_runner = mount no_digits (\<lambda>qs. qs) (Some demo_user) ''t1'' demo_store"

text \<open>Forty true-or-false questions, the first twenty-three of them answered correctly.\<close>

definition forty_ids :: "string list" where
  "forty_ids = map (\<lambda>n. replicate n CHR ''q'') [1..<41]"

definition forty_questions :: "question list" where
  "forty_questions =
     map (\<lambda>i. \<lparr>qid = i, qtype = TrueFalse, options = None, correctAnswer = JBoolean True\<rparr>)
       forty_ids"

definition forty_answers :: "user_answer list" where
  "forty_answers =
     map (\<lambda>i. entry i (JBoolean True)) (take 23 forty_ids)
     @ map (\<lambda>i. entry i JNull) (drop 23 forty_ids)"

section \<open>The store over a run\<close>

text \<open>
  What no write of the runner touches (\<open>read_only\<close>), and how the store can differ after a
  run (\<open>grows\<close>): the attempts written before are all still there, in their places and
  unchanged.
\<close>

definition read_only ::
  "firestore \<Rightarrow> (string \<rightharpoonup> test) \<times> (string \<rightharpoonup> string list) \<times> (string \<rightharpoonup> question)
     \<times> (collection \<Rightarrow> bool) \<times> (collection \<Rightarrow> bool)" where
  "read_only d = (tests d, questionBanks d, questions_docs d, read_fails d, write_fails d)"

definition grows :: "firestore \<Rightarrow> firestore \<Rightarrow> bool" where
  "grows d d' \<longleftrightarrow> read_only d' = read_only d
     \<and> take (length (testAttempts d)) (testAttempts d') = testAttempts d
     \<and> length (testAttempts d) \<le> length (testAttempts d')"

section \<open>Three sessions\<close>

text \<open>
  The user has opened the test and pressed Start (\<open>demo_started\<close>). Then either the user
  goes to the last question and submits (\<open>demo_submitted\<close>), or nothing more is done and the
  sixty seconds run out (\<open>demo_final\<close>, counted from the mounted runner).
\<close>

definition demo_started :: runner where
  "demo_started = dispatch no_digits StartClicked demo_runner"


definition demo_final :: runner where
  "demo_final = run no_digits (StartClicked # replicate 60 TimerFires) demo_runner"

section \<open>Sorting with a random comparator\<close>






section \<open>Rounding to a double\<close>

lemma powi_exp_unique:
  fixes x :: rat
  assumes "2 powi r \<le> x" "x < 2 powi (r + 1)" "2 powi e \<le> x" "x < 2 powi (e + 1)"
  shows "r = e"
proof -
  have "(2::rat) powi r < 2 powi (e + 1)" using assms by linarith
  then have a: "\<not> e + 1 \<le> r"
    using power_int_increasing [of "e + 1" r "2::rat"] by auto
  have "(2::rat) powi e < 2 powi (r + 1)" using assms by linarith
  then have b: "\<not> r + 1 \<le> e"
    using power_int_increasing [of "r + 1" e "2::rat"] by auto
  from a b show ?thesis by simp
qed

lemma bitlen_powi_bounds:
  fixes p :: int
  assumes "0 < p"
  shows "(2::rat) powi (bitlen p - 1) \<le> of_int p" and "of_int p < (2::rat) powi (bitlen p)"
proof -
  from bitlen_bounds [OF assms]
  have lo: "2 ^ nat (bitlen p - 1) \<le> p" and hi: "p < 2 ^ nat (bitlen p)" by simp_all
  have ge1: "1 \<le> bitlen p"
    using assms by (simp add: bitlen_alt_def)
  have "(of_int (2 ^ nat (bitlen p - 1)) :: rat) \<le> of_int p"
    using lo by (simp only: of_int_le_iff)
  then show "(2::rat) powi (bitlen p - 1) \<le> of_int p"
    using ge1 by (simp add: power_int_def)
  have "(of_int p :: rat) < of_int (2 ^ nat (bitlen p))"
    using hi by (simp only: of_int_less_iff)
  then show "of_int p < (2::rat) powi (bitlen p)"
    using ge1 by (simp add: power_int_def)
qed

lemma ilog2_bounds:
  assumes "0 < x"
  shows "2 powi (ilog2 x) \<le> x \<and> x < 2 powi (ilog2 x + 1)"
proof -
  obtain p q where pq: "quotient_of x = (p, q)" by (cases "quotient_of x")
  have q: "0 < q" using pq by (rule quotient_of_denom_pos)
  have x: "x = of_int p / of_int q" using pq by (rule quotient_of_div)
  have p: "0 < p"
    using assms q unfolding x by (simp add: zero_less_divide_iff)
  define e0 where "e0 = bitlen p - bitlen q"
  have qr: "(0::rat) < of_int q" using q by simp
  have pr: "(0::rat) \<le> of_int p" using p by simp
  have "x < 2 powi (bitlen p) / 2 powi (bitlen q - 1)"
    unfolding x
    by (rule frac_less [OF pr bitlen_powi_bounds(2) [OF p] _ bitlen_powi_bounds(1) [OF q]]) simp
  moreover have e1: "bitlen p - (bitlen q - 1) = e0 + 1" by (simp add: e0_def)
  have "(2::rat) powi (bitlen p - (bitlen q - 1)) = 2 powi (bitlen p) / 2 powi (bitlen q - 1)"
    by (rule power_int_diff) simp
  then have "(2::rat) powi (e0 + 1) = 2 powi (bitlen p) / 2 powi (bitlen q - 1)"
    by (simp only: e1)
  ultimately have hi: "x < 2 powi (e0 + 1)" by simp
  have "2 powi (bitlen p - 1) / 2 powi (bitlen q) < x"
    unfolding x using bitlen_powi_bounds [OF p] bitlen_powi_bounds [OF q] qr
    by (simp add: frac_less2)
  moreover have e2: "bitlen p - 1 - bitlen q = e0 - 1" by (simp add: e0_def)
  have "(2::rat) powi (bitlen p - 1 - bitlen q) = 2 powi (bitlen p - 1) / 2 powi (bitlen q)"
    by (rule power_int_diff) simp
  then have "(2::rat) powi (e0 - 1) = 2 powi (bitlen p - 1) / 2 powi (bitlen q)"
    by (simp only: e2)
  ultimately have lo: "2 powi (e0 - 1) < x" by simp
  have r: "ilog2 x = (if 2 powi e0 \<le> x then e0 else e0 - 1)"
    by (simp add: ilog2_def pq e0_def Let_def)
  show ?thesis
    using hi lo unfolding r by (auto simp: less_imp_le)
qed

lemma ilog2_eq:
  assumes "2 powi e \<le> x" "x < 2 powi (e + 1)"
  shows "ilog2 x = e"
proof -
  have "0 < x" using assms(1) zero_less_power_int [of "2::rat" e] by linarith
  from ilog2_bounds [OF this] assms show ?thesis
    by (auto intro: powi_exp_unique)
qed

lemma round_half_even_near:
  assumes "\<bar>x - of_int m\<bar> < 1 / 2"
  shows "round_half_even x = m"
proof (cases "of_int m \<le> x")
  case True
  then have f: "\<lfloor>x\<rfloor> = m" using assms by (intro floor_unique) linarith+
  show ?thesis unfolding round_half_even_def Let_def f using assms True by simp
next
  case False
  then have f: "\<lfloor>x\<rfloor> = m - 1" using assms by (intro floor_unique) (simp, linarith)+
  show ?thesis unfolding round_half_even_def Let_def f using assms False by simp
qed

lemma to_double_normal:
  assumes "2 powi e \<le> \<bar>x\<bar>" "\<bar>x\<bar> < 2 powi (e + 1)" "- 1022 \<le> e" "e < 1023"
    and "\<bar>x / 2 powi (e - 52) - of_int m\<bar> < 1 / 2"
  shows "to_double x = Fin (of_int m * 2 powi (e - 52))"
proof -
  have e: "ilog2 \<bar>x\<bar> = e" using assms(1,2) by (rule ilog2_eq)
  have pos: "(0::rat) < 2 powi e" by simp
  have nz: "x \<noteq> 0"
  proof
    assume "x = 0"
    with assms(1) have "2 powi e \<le> (0::rat)" by simp
    with pos show False by linarith
  qed
  have m: "round_half_even (x / 2 powi (e - 52)) = m"
    using assms(5) by (rule round_half_even_near)
  show ?thesis
    using assms(3,4) nz by (simp add: to_double_def e m Let_def max_def)
qed

lemma to_double_of_int:
  assumes "\<bar>n\<bar> < 9007199254740992"
  shows "to_double (of_int n) = Fin (of_int n)"
proof (cases "n = 0")
  case True
  then show ?thesis by (simp add: to_double_def)
next
  case False
  define x :: rat where "x = \<bar>of_int n\<bar>"
  have xpos: "0 < x" using False by (simp add: x_def)
  define e where "e = ilog2 x"
  from ilog2_bounds [OF xpos] have lo: "2 powi e \<le> x" and hi: "x < 2 powi (e + 1)"
    by (simp_all add: e_def)
  have x1: "1 \<le> x" using False unfolding x_def by linarith
  have xb: "x < 2 powi 53"
  proof -
    have "(of_int \<bar>n\<bar> :: rat) < of_int 9007199254740992"
      using assms by (simp only: of_int_less_iff)
    then show ?thesis by (simp add: x_def)
  qed
  have e0: "0 \<le> e"
  proof (rule ccontr)
    assume "\<not> 0 \<le> e"
    then have "e + 1 \<le> 0" by simp
    then have "(2::rat) powi (e + 1) \<le> 2 powi 0" by (intro power_int_increasing) simp_all
    with hi x1 show False by simp
  qed
  have e52: "e \<le> 52"
  proof (rule ccontr)
    assume "\<not> e \<le> 52"
    then have "53 \<le> e" by simp
    then have "(2::rat) powi 53 \<le> 2 powi e" by (intro power_int_increasing) simp_all
    with lo xb show False by linarith
  qed
  define m where "m = n * 2 ^ nat (52 - e)"
  have q: "(2::rat) powi (e - 52) = 1 / 2 ^ nat (52 - e)"
    using e52 power_int_minus_divide [of "2::rat" "52 - e"] by (simp add: power_int_def)
  have div: "of_int n / (2::rat) powi (e - 52) = of_int m"
    by (simp add: q m_def)
  have "to_double (of_int n) = Fin (of_int m * 2 powi (e - 52))"
  proof (rule to_double_normal)
    show "2 powi e \<le> \<bar>rat_of_int n\<bar>" using lo by (simp add: x_def)
    show "\<bar>rat_of_int n\<bar> < 2 powi (e + 1)" using hi by (simp add: x_def)
    show "- 1022 \<le> e" using e0 by simp
    show "e < 1023" using e52 by simp
    show "\<bar>rat_of_int n / 2 powi (e - 52) - rat_of_int m\<bar> < 1 / 2" by (simp add: div)
  qed
  also have "of_int m * (2::rat) powi (e - 52) = of_int n"
    by (simp add: q m_def)
  finally show ?thesis .
qed

lemma to_double_numeral [simp]:
  "numeral k < (9007199254740992::int) \<Longrightarrow> to_double (numeral k) = Fin (numeral k)"
  using to_double_of_int [of "numeral k"] by simp

lemma to_double_1 [simp]: "to_double 1 = Fin 1"
  using to_double_of_int [of 1] by simp

lemma to_double_0 [simp]: "to_double 0 = Fin 0"
  by (simp add: to_double_def)

text \<open>
  In the normal range rounding moves a number by at most the fraction \<open>2 ^ -53\<close> of it.
\<close>

lemma round_half_even_err: "\<bar>x - of_int (round_half_even x)\<bar> \<le> 1 / 2"
proof -
  define f where "f = \<lfloor>x\<rfloor>"
  have a: "of_int f \<le> x" and b: "x < of_int f + 1" unfolding f_def by linarith+
  consider "x - of_int f < 1 / 2" | "1 / 2 < x - of_int f" | "x - of_int f = 1 / 2"
    by linarith
  then show ?thesis
  proof cases
    case 1
    then have "round_half_even x = f" by (simp add: round_half_even_def f_def Let_def)
    then show ?thesis using a 1 by simp
  next
    case 2
    then have "round_half_even x = f + 1" by (simp add: round_half_even_def f_def Let_def)
    then show ?thesis using b 2 by simp
  next
    case 3
    then have "round_half_even x = f \<or> round_half_even x = f + 1"
      by (simp add: round_half_even_def f_def Let_def)
    then show ?thesis using 3 by auto
  qed
qed

lemma to_double_error:
  assumes "2 powi (- 1022) \<le> \<bar>x\<bar>" and "\<bar>x\<bar> < 2 powi 1023"
  shows "\<exists>y. to_double x = Fin y \<and> \<bar>y - x\<bar> \<le> \<bar>x\<bar> / 2 ^ 53"
proof -
  have xpos: "0 < \<bar>x\<bar>"
    using assms(1) zero_less_power_int [of "2::rat" "- 1022"] by linarith
  then have nz: "x \<noteq> 0" by simp
  define e where "e = ilog2 \<bar>x\<bar>"
  from ilog2_bounds [OF xpos] have lo: "2 powi e \<le> \<bar>x\<bar>" and hi: "\<bar>x\<bar> < 2 powi (e + 1)"
    by (simp_all add: e_def)
  have e1: "- 1022 \<le> e"
  proof (rule ccontr)
    assume "\<not> - 1022 \<le> e"
    then have "e + 1 \<le> - 1022" by simp
    then have "(2::rat) powi (e + 1) \<le> 2 powi (- 1022)"
      by (intro power_int_increasing) simp_all
    with hi assms(1) show False by linarith
  qed
  have e2: "e < 1023"
  proof (rule ccontr)
    assume "\<not> e < 1023"
    then have "1023 \<le> e" by simp
    then have "(2::rat) powi 1023 \<le> 2 powi e" by (intro power_int_increasing) simp_all
    with lo assms(2) show False by linarith
  qed
  define q :: rat where "q = 2 powi (e - 52)"
  define m where "m = round_half_even (x / q)"
  have qpos: "0 < q" by (simp add: q_def)
  have td: "to_double x = Fin (of_int m * q)"
    using nz e1 e2 by (simp add: to_double_def Let_def e_def [symmetric] max_def q_def m_def)
  have "\<bar>x / q - of_int m\<bar> \<le> 1 / 2" unfolding m_def by (rule round_half_even_err)
  then have "\<bar>x / q - of_int m\<bar> * q \<le> 1 / 2 * q"
    using qpos by (intro mult_right_mono) simp_all
  moreover have "\<bar>x / q - of_int m\<bar> * q = \<bar>of_int m * q - x\<bar>"
  proof -
    have "(x / q - of_int m) * q = x - of_int m * q"
      using qpos by (simp add: field_simps)
    then have "\<bar>x / q - of_int m\<bar> * \<bar>q\<bar> = \<bar>x - of_int m * q\<bar>"
      by (simp only: abs_mult [symmetric])
    then show ?thesis using qpos by (simp add: abs_minus_commute)
  qed
  moreover have "1 / 2 * q = 2 powi e / 2 ^ 53"
  proof -
    have "(2::rat) powi (e - 52) = 2 powi e / 2 powi 52"
      by (rule power_int_diff) simp
    then show ?thesis by (simp add: q_def)
  qed
  ultimately have "\<bar>of_int m * q - x\<bar> \<le> 2 powi e / 2 ^ 53" by simp
  also have "\<dots> \<le> \<bar>x\<bar> / 2 ^ 53" using lo by (simp add: divide_right_mono)
  finally show ?thesis using td by blast
qed

section \<open>The scoring loop\<close>

lemma every_includes_array:
  "every_includes ts (JArray us) cs = Inr (set cs \<subseteq> set us)"
  by (induction cs) auto

lemma isCorrect_multi:
  assumes "qtype q = McqMultiple" "correctAnswer q = JArray cs"
  shows "isCorrect ts q (JArray us) = Inr (length cs = length us \<and> set cs \<subseteq> set us)"
  using assms by (simp add: isCorrect_def every_includes_array)

lemma set_eq_of_card:
  assumes "distinct cs" "distinct us"
  shows "(length cs = length us \<and> set cs \<subseteq> set us) \<longleftrightarrow> set us = set cs"
proof
  assume h: "length cs = length us \<and> set cs \<subseteq> set us"
  then have "card (set cs) = card (set us)"
    using assms by (simp add: distinct_card)
  with h show "set us = set cs"
    using card_subset_eq [of "set us" "set cs"] by simp
next
  assume h: "set us = set cs"
  then have "card (set us) = card (set cs)" by simp
  then have "length us = length cs" using assms by (simp add: distinct_card)
  with h show "length cs = length us \<and> set cs \<subseteq> set us" by simp
qed

lemma floor_rat_numeral_div [simp]:
  "\<lfloor>numeral a / numeral b :: rat\<rfloor> = numeral a div numeral b"
  using floor_divide_of_int_eq [of "numeral a" "numeral b", where ?'a = rat] by simp

lemma floor_rat_one_div [simp]:
  "\<lfloor>1 / numeral b :: rat\<rfloor> = 1 div numeral b"
  using floor_divide_of_int_eq [of 1 "numeral b", where ?'a = rat] by simp

lemma to_double_3_5: "to_double (3 / 5) = Fin (5404319552844595 / 9007199254740992)"
  using to_double_normal [of "- 1" "3 / 5" 5404319552844595] by simp

lemma to_double_60: "to_double (135107988821114875 / 2251799813685248) = Fin 60"
  using to_double_normal [of 5 "135107988821114875 / 2251799813685248" 8444249301319680] by simp

lemma percentage_3_5: "percentage 3 5 = Fin 60"
  by (simp add: percentage_def to_double_3_5 to_double_60)

lemma to_double_23_40: "to_double (23 / 40) = Fin (2589569785738035 / 4503599627370496)"
  using to_double_normal [of "- 1" "23 / 40" 5179139571476070] by simp

lemma to_double_57: "to_double (64739244643450875 / 1125899906842624)
    = Fin (8092405580431359 / 140737488355328)"
  using to_double_normal [of 5 "64739244643450875 / 1125899906842624" 8092405580431359] by simp

lemma percentage_23_40: "percentage 23 40 = Fin 57"
  by (simp add: percentage_def to_double_23_40 to_double_57)

lemma forEach_question_eq:
  assumes "\<forall>q\<in>set qs. \<not> check_throws ts uas q"
  shows "forEach_question ts uas qs c = Inr (c + length (filter (correctly_answered ts uas) qs))"
  using assms
proof (induction qs arbitrary: c)
  case Nil
  then show ?case by simp
next
  case (Cons q qs)
  then show ?case
    by (auto simp: check_throws_def correctly_answered_def split: option.splits sum.splits)
qed

lemma forty_count:
  "length (filter (correctly_answered no_digits forty_answers) forty_questions) = 23"
  by code_simp

lemma forty_no_throw: "\<forall>q\<in>set forty_questions. \<not> check_throws no_digits forty_answers q"
  by code_simp

lemma forty_length: "length forty_questions = 40"
  by code_simp

lemma forEach_numeric_total:
  assumes "\<forall>q\<in>set qs. qtype q = Numeric"
  shows "\<exists>n. forEach_question ts uas qs c = Inr n"
  using assms
proof (induction qs arbitrary: c)
  case Nil
  then show ?case by simp
next
  case (Cons q qs)
  then show ?case
    by (auto simp: isCorrect_def Let_def split: option.splits)
qed

lemma calculateScore_eq:
  assumes "\<forall>q\<in>set qs. \<not> check_throws ts uas q"
  shows "calculateScore ts qs uas =
    Inr (percentage (length (filter (correctly_answered ts uas) qs)) (length qs))"
  by (simp add: calculateScore_def forEach_question_eq [OF assms])

lemma parseFloat_42_0009: "parseFloat ''42.0009'' = Fin (46180477927057 / 1099511627776)"
  using to_double_normal [of 5 "420009 / 10000" 5911101174663296]
  by (simp add: parseFloat_def parse_unsigned_def is_ws_def is_digit_def digits_val_def
      digit_val_def exponent_part_def)



lemma parseFloat_empty: "parseFloat [] = NaN"
  by (simp add: parseFloat_def)

lemma parseFloat_abc: "parseFloat ''abc'' = NaN"
  by (simp add: parseFloat_def parse_unsigned_def is_ws_def is_digit_def)

lemma tolerance: "to_double (1 / 1000) = Fin (1152921504606847 / 1152921504606846976)"
  using to_double_normal [of "- 10" "1 / 1000" 4611686018427388] by simp

lemma diff_0009: "to_double (989560465 / 1099511627776) = Fin (989560465 / 1099511627776)"
  using to_double_normal [of "- 11" "989560465 / 1099511627776" 8301034833182720] by simp


lemma five_no_throw: "\<forall>q\<in>set five_questions. \<not> check_throws no_digits five_answers q"
  by (simp add: five_questions_def five_answers_def check_throws_def entry_def q1_def q2_def
      q3_def q4_def q5_def isCorrect_def)

lemma five_count:
  "length (filter (correctly_answered no_digits five_answers) five_questions) = 3"
  by (simp add: five_questions_def five_answers_def correctly_answered_def entry_def q1_def
      q2_def q3_def q4_def q5_def isCorrect_def parseFloat_42_0009 diff_0009 tolerance)

section \<open>Scoring a multiple-choice answer\<close>

text \<open>
  Claim C5. For a multiple-choice question whose correct answer is the array \<open>cs\<close>, an
  answer array \<open>us\<close> is scored correct iff both arrays have the same length and every
  correct index occurs in the answer. When the two arrays list sets of indices (no index
  twice), that is: the two sets have the same cardinality and every correct index is in the
  answer set, which holds iff the sets are equal. So \<open>{0,2}\<close> against \<open>{0,2}\<close> is correct,
  \<open>{0,2,3}\<close> and \<open>{0}\<close> are not.
\<close>

theorem multi_choice_scoring:
  assumes "qtype q = McqMultiple" and "correctAnswer q = JArray cs"
  shows "isCorrect ts q (JArray us) = Inr (length us = length cs \<and> set cs \<subseteq> set us)
    \<and> (distinct cs \<and> distinct us \<longrightarrow>
         isCorrect ts q (JArray us) = Inr (card (set us) = card (set cs) \<and> set cs \<subseteq> set us)
         \<and> (card (set us) = card (set cs) \<and> set cs \<subseteq> set us \<longleftrightarrow> set us = set cs))"
proof -
  have a: "isCorrect ts q (JArray us) = Inr (length us = length cs \<and> set cs \<subseteq> set us)"
    using isCorrect_multi [OF assms, of ts us] by (simp add: eq_commute)
  have b: "card (set us) = length us \<and> card (set cs) = length cs"
    if "distinct cs \<and> distinct us"
    using that by (simp add: distinct_card)
  have c: "(length us = length cs \<and> set cs \<subseteq> set us) \<longleftrightarrow> set us = set cs"
    if "distinct cs \<and> distinct us"
    using set_eq_of_card [of cs us] that by (simp add: eq_commute)
  show ?thesis using a b c by auto
qed

theorem multi_choice_scoring_witness:
  "isCorrect no_digits q3 (JArray [Fin 0, Fin 2]) = Inr True
   \<and> isCorrect no_digits q3 (JArray [Fin 0, Fin 2, Fin 3]) = Inr False
   \<and> isCorrect no_digits q3 (JArray [Fin 0]) = Inr False
   \<and> isCorrect no_digits q3 (JArray [Fin 2, Fin 0]) = Inr True"
proof -
  have t: "qtype q3 = McqMultiple" and c: "correctAnswer q3 = JArray [Fin 0, Fin 2]"
    by (simp_all add: q3_def)
  show ?thesis
    using multi_choice_scoring [OF t c, of no_digits "[Fin 0, Fin 2]"]
      multi_choice_scoring [OF t c, of no_digits "[Fin 0, Fin 2, Fin 3]"]
      multi_choice_scoring [OF t c, of no_digits "[Fin 0]"]
      multi_choice_scoring [OF t c, of no_digits "[Fin 2, Fin 0]"]
    by auto
qed

section \<open>Scoring a numeric answer\<close>



section \<open>The percentage against exact arithmetic\<close>

text \<open>
  For fewer than \<open>2 ^ 40\<close> questions the two roundings of the double computation move
  \<open>100 \<times> c / n\<close> by less than \<open>1 / (2 \<times> n)\<close>, so \<^verbatim>\<open>Math.round\<close> gives the integer that exact
  arithmetic gives, unless \<open>100 \<times> c / n\<close> lies exactly halfway between two integers.
\<close>

lemma frac_gap:
  fixes N D :: int
  assumes "0 < D" and "\<not> D dvd N"
  shows "of_int (N div D) + 1 / of_int D \<le> (of_int N / of_int D :: rat)"
    and "(of_int N / of_int D :: rat) \<le> of_int (N div D) + 1 - 1 / of_int D"
proof -
  define r where "r = N mod D"
  have "0 \<le> N mod D" "N mod D < D" "N mod D \<noteq> 0"
    using assms by (simp_all add: dvd_eq_mod_eq_0)
  then have r: "0 < r" "r < D" by (simp_all add: r_def)
  have N: "N = D * (N div D) + r" by (simp add: r_def)
  have Dr: "(0::rat) < of_int D" using assms(1) by simp
  have "(of_int N :: rat) = of_int D * of_int (N div D) + of_int r"
    by (subst N) (simp only: of_int_add of_int_mult)
  then have eq: "(of_int N / of_int D :: rat) = of_int (N div D) + of_int r / of_int D"
    using Dr by (simp add: field_simps)
  have "(1::rat) \<le> of_int r" using r(1) by (simp add: int_one_le_iff_zero_less)
  then have a: "(1::rat) / of_int D \<le> of_int r / of_int D"
    using Dr by (simp add: divide_right_mono)
  have "(of_int r :: rat) \<le> of_int D - 1" using r(2) by (metis of_int_1 of_int_diff of_int_le_iff zle_diff1_eq)
  then have "(of_int r :: rat) / of_int D \<le> (of_int D - 1) / of_int D"
    using Dr by (simp add: divide_right_mono)
  also have "\<dots> = 1 - 1 / of_int D" using Dr by (simp add: field_simps)
  finally have b: "(of_int r :: rat) / of_int D \<le> 1 - 1 / of_int D" .
  show "of_int (N div D) + 1 / of_int D \<le> (of_int N / of_int D :: rat)"
    unfolding eq using a by simp
  show "(of_int N / of_int D :: rat) \<le> of_int (N div D) + 1 - 1 / of_int D"
    unfolding eq using b by simp
qed

lemma normal_range:
  fixes y :: rat
  assumes "1 / 2 ^ 41 \<le> y" and "y \<le> 256"
  shows "2 powi (- 1022) \<le> \<bar>y\<bar>" and "\<bar>y\<bar> < 2 powi 1023"
proof -
  have ypos: "0 < y" using assms(1) by (rule less_le_trans [rotated]) simp
  have "(2::rat) powi (- 1022) \<le> 2 powi (- 41)"
    by (rule power_int_increasing) simp_all
  also have "(2::rat) powi (- 41) = 1 / 2 ^ 41"
    using power_int_minus_divide [of "2::rat" 41] by simp
  finally show "2 powi (- 1022) \<le> \<bar>y\<bar>" using assms(1) ypos by simp
  have "(2::rat) powi 8 < 2 powi 1023"
    by (rule power_int_strict_increasing) simp_all
  then show "\<bar>y\<bar> < 2 powi 1023" using assms(2) ypos by simp
qed

lemma percentage_exact:
  assumes "0 < n" and "c \<le> n" and "n < 2 ^ 40"
    and "\<not> 2 * int n dvd 200 * int c + int n"
  shows "percentage c n = Fin (of_int (spec_score c n))"
proof (cases "c = 0")
  case True
  then show ?thesis using assms(1) by (simp add: percentage_def spec_score_def)
next
  case False
  define x :: rat where "x = of_nat c / of_nat n"
  define u :: rat where "u = 1 / 2 ^ 53"
  have u: "0 < u" "u \<le> 1 / 2" by (simp_all add: u_def)
  have npos: "(0::rat) < of_nat n" using assms(1) by simp
  have nb: "(of_nat n :: rat) < 2 ^ 40"
    using assms(3) by (metis of_nat_less_iff of_nat_numeral of_nat_power)
  have x0: "0 < x" using False npos by (simp add: x_def)
  have x1: "x \<le> 1" using assms(1,2) by (simp add: x_def)
  have xlow: "1 / 2 ^ 40 \<le> x"
  proof -
    have "(1::rat) \<le> of_nat c" using False by simp
    then have "1 / of_nat n \<le> x" unfolding x_def using npos by (simp add: divide_right_mono)
    moreover have "(1::rat) / 2 ^ 40 \<le> 1 / of_nat n"
      using nb npos by (simp add: frac_le)
    ultimately show ?thesis by linarith
  qed
  have xlow': "1 / 2 ^ 41 \<le> x" using xlow by simp
  have xhi: "x \<le> 256" using x1 by simp
  have "\<exists>a. to_double x = Fin a \<and> \<bar>a - x\<bar> \<le> \<bar>x\<bar> / 2 ^ 53"
    by (rule to_double_error [OF normal_range [OF xlow' xhi]])
  then obtain a where a: "to_double x = Fin a" and ae: "\<bar>a - x\<bar> \<le> x * u"
    using x0 by (auto simp: u_def)
  have xu: "x * u \<le> x / 2" using x0 u by (simp add: u_def)
  have alow: "x / 2 \<le> a" and ahi: "a \<le> x + x * u" using ae xu by (simp_all add: abs_le_iff)
  define y where "y = a * 100"
  have y0: "0 < y" using alow x0 by (simp add: y_def)
  have ylow: "1 / 2 ^ 41 \<le> y" using alow xlow by (simp add: y_def)
  have yhi: "y \<le> 256" using ahi x1 xu by (simp add: y_def)
  have "\<exists>b. to_double y = Fin b \<and> \<bar>b - y\<bar> \<le> \<bar>y\<bar> / 2 ^ 53"
    by (rule to_double_error [OF normal_range [OF ylow yhi]])
  then obtain b where b: "to_double y = Fin b" and be: "\<bar>b - y\<bar> \<le> y * u"
    using y0 by (auto simp: u_def)
  define t where "t = 100 * x"
  have "\<bar>b - t\<bar> \<le> \<bar>b - y\<bar> + \<bar>y - t\<bar>" by simp
  also have "\<bar>y - t\<bar> = 100 * \<bar>a - x\<bar>" by (simp add: y_def t_def abs_if)
  also have "\<bar>b - y\<bar> + 100 * \<bar>a - x\<bar> \<le> y * u + 100 * (x * u)"
    using be ae by simp
  also have "y * u \<le> 100 * (x + x * u) * u"
    using ahi u(1) by (simp add: y_def mult_right_mono)
  finally have "\<bar>b - t\<bar> \<le> 100 * (x + x * u) * u + 100 * (x * u)" by simp
  also have "\<dots> = x * (100 * u * (2 + u))" by (simp add: algebra_simps)
  also have "\<dots> \<le> 1 * (100 * u * (2 + u))"
    using x1 u(1) by (intro mult_right_mono) simp_all
  also have "\<dots> < 1 / 2 ^ 41" by (simp add: u_def)
  also have "(1::rat) / 2 ^ 41 < 1 / (2 * of_nat n)"
    using nb npos by (simp add: frac_less2)
  finally have bt: "\<bar>b - t\<bar> < 1 / (2 * of_nat n)" .
  define N where "N = 200 * int c + int n"
  define D where "D = 2 * int n"
  have D: "0 < D" using assms(1) by (simp add: D_def)
  have tN: "t + 1 / 2 = of_int N / of_int D"
    using npos by (simp add: t_def x_def N_def D_def field_simps)
  have nd: "\<not> D dvd N" using assms(4) by (simp add: N_def D_def)
  have k: "spec_score c n = N div D"
    using tN by (simp add: spec_score_def round_def t_def x_def floor_divide_of_int_eq)
  have invD: "1 / (of_int D :: rat) = 1 / (2 * of_nat n)" by (simp add: D_def)
  from frac_gap [OF D nd] have
    g1: "of_int (N div D) + 1 / (2 * of_nat n) \<le> t + 1 / 2" and
    g2: "t + 1 / 2 \<le> of_int (N div D) + 1 - 1 / (2 * of_nat n)"
    by (simp_all only: tN invD)
  have "of_int (N div D) \<le> b + 1 / 2" and "b + 1 / 2 < of_int (N div D) + 1"
    using bt g1 g2 by (simp_all add: abs_less_iff)
  then have "\<lfloor>b + 1 / 2\<rfloor> = N div D" by (intro floor_unique) simp_all
  then show ?thesis
    using a b npos by (simp add: percentage_def k x_def y_def)
qed

section \<open>The score\<close>

text \<open>
  Claim C4, as amended. For a non-empty question list whose checks do not throw, the score
  is \<^verbatim>\<open>Math.round((correctCount / totalQuestions) * 100)\<close> in double arithmetic: the
  quotient is rounded to a double, then the product, then \<^verbatim>\<open>Math.round\<close> takes the nearest
  integer. \<open>correctCount\<close> counts the questions whose answer is there, is not \<^verbatim>\<open>null\<close> and
  passes the check, and \<open>totalQuestions\<close> counts all questions: a question whose answer
  is \<^verbatim>\<open>null\<close> is never counted as correct and stays in the denominator. The score is
  \<open>round(100 \<times> correctCount / totalQuestions)\<close> whenever that quotient is not exactly
  halfway between two integers (for fewer than \<open>2 ^ 40\<close> questions). Three correct answers
  out of five give 60 (not passed at 70).
\<close>

theorem score_is_rounded_percentage:
  assumes "qs \<noteq> []" and "\<forall>q\<in>set qs. \<not> check_throws ts uas q"
  shows "calculateScore ts qs uas =
      Inr (Math_round (js_mul (js_div (Fin (of_nat (length (filter (correctly_answered ts uas) qs))))
                                      (Fin (of_nat (length qs))))
                              (Fin 100)))
    \<and> (\<forall>q\<in>set qs. \<forall>ua. find (\<lambda>ua. questionId ua = qid q) uas = Some ua \<and> answer ua = JNull
          \<longrightarrow> \<not> correctly_answered ts uas q)
    \<and> (length qs < 2 ^ 40
        \<and> \<not> 2 * int (length qs)
              dvd 200 * int (length (filter (correctly_answered ts uas) qs)) + int (length qs)
        \<longrightarrow> calculateScore ts qs uas =
            Inr (Fin (of_int (spec_score (length (filter (correctly_answered ts uas) qs))
                                         (length qs)))))"
proof -
  let ?c = "length (filter (correctly_answered ts uas) qs)"
  have sc: "calculateScore ts qs uas = Inr (percentage ?c (length qs))"
    by (rule calculateScore_eq [OF assms(2)])
  have "percentage ?c (length qs) = Fin (of_int (spec_score ?c (length qs)))"
    if "length qs < 2 ^ 40" and "\<not> 2 * int (length qs) dvd 200 * int ?c + int (length qs)"
    using assms(1) that by (intro percentage_exact) simp_all
  then show ?thesis
    using sc by (auto simp: percentage_def correctly_answered_def)
qed

theorem score_is_rounded_percentage_witness:
  "calculateScore no_digits five_questions five_answers = Inr (Fin 60)
   \<and> find (\<lambda>ua. questionId ua = qid q4) five_answers = Some (entry ''q4'' JNull)
   \<and> \<not> correctly_answered no_digits five_answers q4
   \<and> spec_score 3 5 = 60
   \<and> \<not> passed demo_test (Fin 60)"
proof -
  have ne: "five_questions \<noteq> []" by (simp add: five_questions_def)
  have len: "length five_questions = 5" by (simp add: five_questions_def)
  have f: "find (\<lambda>ua. questionId ua = qid q4) five_answers = Some (entry ''q4'' JNull)"
    by (simp add: five_answers_def entry_def q4_def)
  have m: "q4 \<in> set five_questions" by (simp add: five_questions_def)
  have sp: "spec_score 3 5 = 60" by (simp add: spec_score_def round_def)
  note t = score_is_rounded_percentage [OF ne five_no_throw]
  have sc: "calculateScore no_digits five_questions five_answers = Inr (Fin 60)"
    using t [THEN conjunct2, THEN conjunct2] by (simp add: five_count len sp)
  have un: "\<not> correctly_answered no_digits five_answers q4"
    using t [THEN conjunct2, THEN conjunct1] f m by (auto simp: entry_def)
  have "\<not> passed demo_test (Fin 60)"
    by (simp add: passed_def passing_or_default_def demo_test_def)
  with sc un f sp show ?thesis by simp
qed

text \<open>
  Claim C4 as it was stated, \<open>score = round(100 \<times> correctCount / totalQuestions)\<close>, fails
  for 23 correct answers out of 40: \<open>100 \<times> 23 / 40 = 57.5\<close> rounds to 58, but the double
  nearest to \<open>23 / 40\<close> is below it, its product with 100 rounds to a double below 57.5,
  and the score is 57.
\<close>

theorem score_23_of_40_counterexample:
  "calculateScore no_digits forty_questions forty_answers = Inr (Fin 57)
   \<and> spec_score (length (filter (correctly_answered no_digits forty_answers) forty_questions))
        (length forty_questions) = 58"
proof -
  have "spec_score 23 40 = 58"
    by (simp add: spec_score_def round_def)
  then show ?thesis
    using calculateScore_eq [OF forty_no_throw]
    by (simp add: forty_count forty_length percentage_23_40)
qed

section \<open>Numeric answers that are not numbers\<close>

text \<open>
  Claim C10. For a numeric question the check never throws, whatever string the answer is
  (so scoring a test of numeric questions always returns a score); a string that
  does not parse as a number, such as the empty string, gives \<open>NaN\<close>, the comparison with
  the tolerance is false, and the answer is scored incorrect.
\<close>

theorem numeric_scoring_total:
  assumes "qtype q = Numeric"
  shows "(\<exists>b. isCorrect ts q (JString s) = Inr b)
    \<and> (parseFloat s = NaN \<longrightarrow> isCorrect ts q (JString s) = Inr False)
    \<and> isCorrect ts q (JString []) = Inr False
    \<and> ((\<forall>q'\<in>set qs. qtype q' = Numeric) \<longrightarrow> (\<exists>sc. calculateScore ts qs uas = Inr sc))"
proof -
  have "\<exists>sc. calculateScore ts qs uas = Inr sc" if "\<forall>q'\<in>set qs. qtype q' = Numeric"
    using forEach_numeric_total [OF that, of ts uas 0] by (auto simp: calculateScore_def)
  then show ?thesis using assms by (simp add: isCorrect_def parseFloat_empty)
qed

theorem numeric_scoring_total_witness:
  "(\<exists>b. isCorrect no_digits q5 (JString ''4 2'') = Inr b)
   \<and> parseFloat ''abc'' = NaN
   \<and> isCorrect no_digits q5 (JString ''abc'') = Inr False
   \<and> isCorrect no_digits q5 (JString []) = Inr False"
proof -
  have t: "qtype q5 = Numeric" by (simp add: q5_def)
  show ?thesis
    using numeric_scoring_total [OF t, of no_digits "''abc''"]
      numeric_scoring_total [OF t, of no_digits "''4 2''"]
    by (simp add: parseFloat_abc)
qed

section \<open>The pass mark\<close>




section \<open>Storing an answer\<close>




section \<open>Shuffling the questions\<close>









section \<open>Rendering again\<close>

text \<open>
  The recursion equation of \<open>rerender\<close> is unfolded by hand, through the three lemmas below.
\<close>

declare rerender.simps [simp del]

lemma rerender_same: "timer_deps prev = timer_deps s \<Longrightarrow> rerender ts prev s = s"
  by (simp add: rerender.simps)

lemma rerender_unmounted: "route s \<noteq> None \<Longrightarrow> rerender ts prev s = s"
  by (simp add: rerender.simps)

lemma rerender_step:
  "route s = None \<Longrightarrow> timer_deps prev \<noteq> timer_deps s \<Longrightarrow>
   rerender ts prev s = rerender ts s (timer_effect ts (s\<lparr>pending := None\<rparr>))"
  by (subst rerender.simps) simp

lemma run_append: "run ts (xs @ ys) s = run ts ys (run ts xs s)"
  by (induction xs arbitrary: s) simp_all

section \<open>The store only grows\<close>

text \<open>
  Whatever happens to a mounted runner, the attempts already in the store stay as they are.
\<close>

lemma grows_refl [simp]: "grows d d"
  by (simp add: grows_def)

lemma grows_trans:
  assumes "grows a b" and "grows b c"
  shows "grows a c"
proof -
  have l: "length (testAttempts a) \<le> length (testAttempts b)"
    and l': "length (testAttempts b) \<le> length (testAttempts c)"
    and t: "take (length (testAttempts a)) (testAttempts b) = testAttempts a"
    and t': "take (length (testAttempts b)) (testAttempts c) = testAttempts b"
    and r: "read_only c = read_only a"
    using assms by (simp_all add: grows_def)
  have "take (length (testAttempts a)) (testAttempts c)
      = take (length (testAttempts a)) (take (length (testAttempts b)) (testAttempts c))"
    using l by (simp add: min_def)
  also have "\<dots> = testAttempts a" by (simp only: t' t)
  finally show ?thesis using l l' r by (simp add: grows_def)
qed

lemma grows_append [simp]:
  "grows d (d\<lparr>testAttempts := testAttempts d @ xs\<rparr>)"
  "grows d (d\<lparr>testAttempts := testAttempts d @ xs, activityLogs := ys\<rparr>)"
  by (simp_all add: grows_def read_only_def)

lemma handleSubmitTest_grows: "grows (db s) (db (handleSubmitTest ts s))"
  by (simp add: handleSubmitTest_def addDoc_attempt_def addDoc_activity_def toast_def
      split: sum.splits option.splits)

lemma startTest_grows: "grows (db s) (db (startTest s))"
  by (simp add: startTest_def addDoc_attempt_def toast_def split: sum.splits option.splits)

lemma handle_grows: "grows (db s) (db (handle ts ev s))"
  by (cases ev)
    (simp_all add: handle_def on_question_def handleSubmitTest_grows startTest_grows
      split: option.splits)

lemma timer_effect_grows: "grows (db s) (db (timer_effect ts s))"
  by (simp add: timer_effect_def handleSubmitTest_grows)

lemma rerender_grows: "grows (db s) (db (rerender ts prev s))"
proof (induction ts prev s rule: rerender.induct)
  case (1 ts prev s)
  show ?case
  proof (cases "route s \<noteq> None \<or> timer_deps prev = timer_deps s")
    case True
    then show ?thesis by (simp add: rerender.simps)
  next
    case False
    have "grows (db s) (db (timer_effect ts (s\<lparr>pending := None\<rparr>)))"
      using timer_effect_grows [of "s\<lparr>pending := None\<rparr>" ts] by simp
    moreover have "grows (db (timer_effect ts (s\<lparr>pending := None\<rparr>)))
        (db (rerender ts s (timer_effect ts (s\<lparr>pending := None\<rparr>))))"
      using False by (intro "1.IH") simp
    ultimately show ?thesis
      using False by (subst rerender.simps) (auto intro: grows_trans)
  qed
qed

lemma dispatch_grows: "grows (db s) (db (dispatch ts ev s))"
  using grows_trans [OF handle_grows rerender_grows] by (simp add: dispatch_def)

lemma run_grows: "grows (db s) (db (run ts evs s))"
proof (induction evs arbitrary: s)
  case Nil
  then show ?case by simp
next
  case (Cons ev evs)
  have "grows (db s) (db (dispatch ts ev s))" by (rule dispatch_grows)
  moreover have "grows (db (dispatch ts ev s)) (db (run ts evs (dispatch ts ev s)))"
    by (rule Cons.IH)
  ultimately show ?case by (auto intro: grows_trans)
qed

section \<open>The timer running out\<close>

lemma handleSubmitTest_writes:
  assumes "calculateScore ts (questions s) (userAnswers s) = Inr sc"
    and "userData s = Some u"
    and "\<not> write_fails (db s) TestAttempts"
    and "\<not> write_fails (db s) ActivityLogs"
  shows "handleSubmitTest ts s =
    toast ''Test Submitted!''
      (s\<lparr>db := (db s)\<lparr>testAttempts := testAttempts (db s) @ [completed_doc s u sc],
                        activityLogs := activityLogs (db s) @ [activity_doc s u sc]\<rparr>,
         testSubmitted := True\<rparr>)"
  using assms by (simp add: handleSubmitTest_def addDoc_attempt_def addDoc_activity_def)

lemma dispatch_tick:
  assumes "route s = None" "testStarted s" "\<not> testSubmitted s"
    and "pending s = Some (timeRemaining s - 1)" "1 < timeRemaining s"
  shows "dispatch ts TimerFires s
    = s\<lparr>timeRemaining := timeRemaining s - 1, pending := Some (timeRemaining s - 2)\<rparr>"
proof -
  let ?s1 = "s\<lparr>timeRemaining := timeRemaining s - 1, pending := None\<rparr>"
  have h: "handle ts TimerFires s = ?s1" using assms by (simp add: handle_def)
  have e: "timer_effect ts (?s1\<lparr>pending := None\<rparr>)
      = s\<lparr>timeRemaining := timeRemaining s - 1, pending := Some (timeRemaining s - 2)\<rparr>"
    using assms by (simp add: timer_effect_def)
  have "rerender ts s ?s1 = rerender ts ?s1 (timer_effect ts (?s1\<lparr>pending := None\<rparr>))"
    using assms by (intro rerender_step) (simp_all add: timer_deps_def)
  also have "\<dots> = s\<lparr>timeRemaining := timeRemaining s - 1, pending := Some (timeRemaining s - 2)\<rparr>"
    unfolding e by (rule rerender_same) (simp add: timer_deps_def)
  finally show ?thesis using assms(1) by (simp add: dispatch_def h)
qed

lemma run_ticks:
  assumes "route s = None" "testStarted s" "\<not> testSubmitted s"
    and "pending s = Some (timeRemaining s - 1)" "int n < timeRemaining s"
  shows "run ts (replicate n TimerFires) s
    = s\<lparr>timeRemaining := timeRemaining s - int n, pending := Some (timeRemaining s - int n - 1)\<rparr>"
  using assms
proof (induction n arbitrary: s)
  case 0
  then show ?case by simp
next
  case (Suc n)
  let ?s' = "s\<lparr>timeRemaining := timeRemaining s - 1, pending := Some (timeRemaining s - 2)\<rparr>"
  have d: "dispatch ts TimerFires s = ?s'"
    using Suc.prems by (intro dispatch_tick) simp_all
  have "run ts (replicate n TimerFires) ?s'
    = ?s'\<lparr>timeRemaining := timeRemaining ?s' - int n,
          pending := Some (timeRemaining ?s' - int n - 1)\<rparr>"
    using Suc.prems by (intro Suc.IH) simp_all
  then show ?case by (simp add: d algebra_simps)
qed

lemma completed_doc_update [simp]:
  "completed_doc (s\<lparr>db := d\<rparr>) u sc = completed_doc s u sc"
  "completed_doc (s\<lparr>pending := p\<rparr>) u sc = completed_doc s u sc"
  "completed_doc (s\<lparr>testSubmitted := b\<rparr>) u sc = completed_doc s u sc"
  "completed_doc (s\<lparr>toasts := t\<rparr>) u sc = completed_doc s u sc"
  by (simp_all add: completed_doc_def minutes_used_def)

lemma activity_doc_update [simp]:
  "activity_doc (s\<lparr>db := d\<rparr>) u sc = activity_doc s u sc"
  "activity_doc (s\<lparr>pending := p\<rparr>) u sc = activity_doc s u sc"
  "activity_doc (s\<lparr>testSubmitted := b\<rparr>) u sc = activity_doc s u sc"
  "activity_doc (s\<lparr>toasts := t\<rparr>) u sc = activity_doc s u sc"
  "activity_doc (s\<lparr>timeRemaining := n\<rparr>) u sc = activity_doc s u sc"
  by (simp_all add: activity_doc_def)

lemma dispatch_expiry:
  assumes "route s = None" "testStarted s" "\<not> testSubmitted s"
    and "timeRemaining s = 1" "pending s = Some 0"
    and "calculateScore ts (questions s) (userAnswers s) = Inr sc"
    and "userData s = Some u"
    and "\<not> write_fails (db s) TestAttempts"
    and "\<not> write_fails (db s) ActivityLogs"
  shows "testAttempts (db (dispatch ts TimerFires s))
      = testAttempts (db s) @ [completed_doc (s\<lparr>timeRemaining := 0\<rparr>) u sc,
                               completed_doc (s\<lparr>timeRemaining := 0\<rparr>) u sc]
    \<and> testSubmitted (dispatch ts TimerFires s)
    \<and> route (dispatch ts TimerFires s) = None"
proof -
  let ?c = "completed_doc (s\<lparr>timeRemaining := 0\<rparr>) u sc"
  let ?a = "activity_doc s u sc"
  let ?s1 = "s\<lparr>timeRemaining := 0, pending := None\<rparr>"
  let ?s2 = "toast ''Test Submitted!''
      (?s1\<lparr>db := (db s)\<lparr>testAttempts := testAttempts (db s) @ [?c],
                          activityLogs := activityLogs (db s) @ [?a]\<rparr>,
           testSubmitted := True\<rparr>)"
  let ?s3 = "toast ''Test Submitted!''
      (?s2\<lparr>db := (db ?s2)\<lparr>testAttempts := testAttempts (db ?s2) @ [?c],
                          activityLogs := activityLogs (db ?s2) @ [?a]\<rparr>,
           testSubmitted := True\<rparr>)"
  have h: "handle ts TimerFires s = ?s1" using assms by (simp add: handle_def)
  have sub1: "handleSubmitTest ts ?s1 = ?s2"
    using handleSubmitTest_writes [of ts ?s1 sc u] assms by simp
  have sub2: "handleSubmitTest ts ?s2 = ?s3"
    using handleSubmitTest_writes [of ts ?s2 sc u] assms by (simp add: toast_def)
  have e1: "timer_effect ts (?s1\<lparr>pending := None\<rparr>) = ?s2"
    using assms sub1 by (simp add: timer_effect_def)
  have e2: "timer_effect ts (?s2\<lparr>pending := None\<rparr>) = ?s3"
  proof -
    have p: "?s2\<lparr>pending := None\<rparr> = ?s2" by (simp add: toast_def)
    have "timer_effect ts ?s2 = handleSubmitTest ts ?s2"
      using assms by (simp add: timer_effect_def toast_def)
    then show ?thesis by (simp only: p sub2)
  qed
  have "rerender ts s ?s1 = rerender ts ?s1 (timer_effect ts (?s1\<lparr>pending := None\<rparr>))"
    using assms by (intro rerender_step) (simp_all add: timer_deps_def)
  also have "\<dots> = rerender ts ?s1 ?s2" by (simp only: e1)
  also have "\<dots> = rerender ts ?s2 (timer_effect ts (?s2\<lparr>pending := None\<rparr>))"
    using assms by (intro rerender_step) (simp_all add: timer_deps_def toast_def)
  also have "\<dots> = rerender ts ?s2 ?s3" by (simp only: e2)
  also have "\<dots> = ?s3" by (rule rerender_same) (simp add: timer_deps_def toast_def)
  finally have "dispatch ts TimerFires s = ?s3" using assms(1) by (simp add: dispatch_def h)
  then show ?thesis using assms(1) by (simp add: toast_def)
qed

lemma run_out:
  assumes "route s = None" "testStarted s" "\<not> testSubmitted s"
    and "0 < timeRemaining s" "pending s = Some (timeRemaining s - 1)"
    and "calculateScore ts (questions s) (userAnswers s) = Inr sc"
    and "userData s = Some u"
    and "\<not> write_fails (db s) TestAttempts"
    and "\<not> write_fails (db s) ActivityLogs"
  shows "testAttempts (db (run ts (replicate (nat (timeRemaining s)) TimerFires) s))
      = testAttempts (db s) @ [completed_doc (s\<lparr>timeRemaining := 0\<rparr>) u sc,
                               completed_doc (s\<lparr>timeRemaining := 0\<rparr>) u sc]"
proof -
  define n where "n = nat (timeRemaining s - 1)"
  have n: "int n = timeRemaining s - 1" using assms(4) by (simp add: n_def)
  let ?s' = "s\<lparr>timeRemaining := timeRemaining s - int n,
                pending := Some (timeRemaining s - int n - 1)\<rparr>"
  have ticks: "run ts (replicate n TimerFires) s = ?s'"
    using assms n by (intro run_ticks) simp_all
  have "nat (timeRemaining s) = n + 1" using assms(4) by (simp add: n_def)
  then have "replicate (nat (timeRemaining s)) TimerFires = replicate n TimerFires @ [TimerFires]"
    by (simp add: replicate_append_same)
  then have "run ts (replicate (nat (timeRemaining s)) TimerFires) s = dispatch ts TimerFires ?s'"
    by (simp add: run_append ticks)
  moreover have "testAttempts (db (dispatch ts TimerFires ?s'))
      = testAttempts (db ?s') @ [completed_doc (?s'\<lparr>timeRemaining := 0\<rparr>) u sc,
                                 completed_doc (?s'\<lparr>timeRemaining := 0\<rparr>) u sc]"
    using assms n by (intro dispatch_expiry [THEN conjunct1]) simp_all
  ultimately show ?thesis by (simp add: completed_doc_def minutes_used_def)
qed

lemma five_unanswered_score:
  "calculateScore ts five_questions (map (\<lambda>q. entry (qid q) JNull) five_questions) = Inr (Fin 0)"
  by (simp add: calculateScore_def five_questions_def entry_def q1_def q2_def q3_def q4_def
      q5_def percentage_def)

lemma demo_runner_eq:
  "demo_runner = \<lparr>userData = Some demo_user, testId = ''t1'', test = Some demo_test,
     questions = five_questions, currentQuestion = 0, timeRemaining = 60,
     userAnswers = map (\<lambda>q. entry (qid q) JNull) five_questions,
     showSubmitWarning = False, testSubmitted = False, loading = False, testStarted = False,
     pending = None, db = demo_store, toasts = [], route = None\<rparr>"
  by (simp add: demo_runner_def mount_def initial_def fetchTestData_def getDoc_test_def
      getDocs_completed_def completed_attempts_def getDoc_bank_def getDoc_question_def
      demo_store_def demo_test_def rerender.simps timer_deps_def timer_effect_def
      five_questions_def entry_def q1_def q2_def q3_def q4_def q5_def)

lemma demo_started_eq:
  "demo_started = demo_runner\<lparr>testStarted := True, pending := Some 59,
     db := demo_store\<lparr>testAttempts := [in_progress_doc demo_runner demo_user]\<rparr>,
     toasts := [''Test Started'']\<rparr>"
  by (simp add: demo_started_def dispatch_def handle_def screen_def startTest_def
      addDoc_attempt_def toast_def rerender.simps timer_deps_def timer_effect_def
      demo_runner_eq demo_store_def five_questions_def in_progress_doc_def)

lemma demo_started_props:
  "route demo_started = None" "testStarted demo_started" "\<not> testSubmitted demo_started"
  "timeRemaining demo_started = 60" "pending demo_started = Some 59"
  "userData demo_started = Some demo_user"
  "questions demo_started = five_questions"
  "userAnswers demo_started = map (\<lambda>q. entry (qid q) JNull) five_questions"
  "testAttempts (db demo_started) = [in_progress_doc demo_runner demo_user]"
  "write_fails (db demo_started) = (\<lambda>c. False)"
  by (simp_all add: demo_started_eq demo_runner_eq demo_store_def)

text \<open>
  Claim C1 (one completed write per attempt) fails for the timer. Take a running session
  with its timeout set, in which scoring does not throw and the writes are accepted. When
  the timeouts fire one after the other and the user does nothing, the last one brings
  \<^verbatim>\<open>timeRemaining\<close> to zero and the effect submits; the submission sets \<^verbatim>\<open>testSubmitted\<close>,
  a dependency of the effect, so the effect runs again, finds \<^verbatim>\<open>timeRemaining === 0\<close> and
  submits again: \<^verbatim>\<open>testAttempts\<close> receives the same completed record twice.
\<close>

theorem timer_expiry_submits_twice:
  assumes "route s = None" "testStarted s" "\<not> testSubmitted s"
    and "0 < timeRemaining s" "pending s = Some (timeRemaining s - 1)"
    and "calculateScore ts (questions s) (userAnswers s) = Inr sc"
    and "userData s = Some u"
    and "\<not> write_fails (db s) TestAttempts"
    and "\<not> write_fails (db s) ActivityLogs"
  shows "\<exists>c. status c = Completed \<and> score c = Some sc
    \<and> testAttempts (db (run ts (replicate (nat (timeRemaining s)) TimerFires) s))
        = testAttempts (db s) @ [c, c]"
  using run_out [OF assms] by (auto simp: completed_doc_def)

theorem timer_expiry_submits_twice_witness:
  "map status (testAttempts (db (run no_digits (replicate 60 TimerFires) demo_started)))
     = [In_progress, Completed, Completed]"
proof -
  have "\<exists>c. status c = Completed \<and> score c = Some (Fin 0)
    \<and> testAttempts (db (run no_digits (replicate (nat (timeRemaining demo_started)) TimerFires)
          demo_started))
        = testAttempts (db demo_started) @ [c, c]"
    by (rule timer_expiry_submits_twice)
      (simp_all add: demo_started_props five_unanswered_score)
  then show ?thesis
    by (auto simp: demo_started_props in_progress_doc_def)
qed

section \<open>The records of an attempt\<close>



section \<open>Submitting by hand\<close>



lemma results_inert:
  assumes "route s = None" "screen s = Results" "pending s = None"
  shows "dispatch ts ev s = s"
proof -
  have "handle ts ev s = s"
    using assms by (cases ev) (simp_all add: handle_def on_question_def)
  then show ?thesis using assms by (simp add: dispatch_def rerender_same)
qed

lemma results_final:
  assumes "route s = None" "screen s = Results" "pending s = None"
  shows "run ts evs s = s"
  using assms by (induction evs) (simp_all add: results_inert)


section \<open>A test already completed\<close>

text \<open>
  A completed attempt of the user for the test stops the runner while it loads: it shows
  "Test Already Completed", leaves for the list of tests with no question loaded, and
  nothing is written, whatever events follow.
\<close>

lemma completed_attempt_blocks_start:
  assumes "t \<noteq> []" and "tests d t = Some T"
    and "\<not> read_fails d Tests" and "\<not> read_fails d TestAttempts"
    and "completed_attempts d (uid u) t \<noteq> []"
  shows "route (mount ts sr (Some u) t d) = Some ''/student/tests''
    \<and> toasts (mount ts sr (Some u) t d) = [''Test Already Completed'']
    \<and> db (mount ts sr (Some u) t d) = d
    \<and> questions (mount ts sr (Some u) t d) = []
    \<and> run ts evs (mount ts sr (Some u) t d) = mount ts sr (Some u) t d"
proof -
  let ?m = "mount ts sr (Some u) t d"
  let ?b = "(navigate ''/student/tests''
          (toast ''Test Already Completed''
            ((initial (Some u) t d)\<lparr>loading := True, test := Some T\<rparr>)))\<lparr>loading := False\<rparr>"
  have f: "fetchTestData sr (initial (Some u) t d) = ?b"
    using assms
    by (simp add: fetchTestData_def initial_def getDoc_test_def getDocs_completed_def)
  have "?m = rerender ts (initial (Some u) t d) ?b"
    using assms(1) by (simp add: mount_def f Let_def)
  also have "\<dots> = ?b" by (rule rerender_unmounted) (simp add: navigate_def)
  finally have m: "?m = ?b" .
  have r: "route ?b \<noteq> None" by (simp add: navigate_def)
  have "run ts evs s = s" if "route s \<noteq> None" for s
    using that by (induction evs) (simp_all add: dispatch_def)
  from this [OF r] show ?thesis
    unfolding m by (simp add: navigate_def toast_def initial_def)
qed

text \<open>
  Claim C3 (at most one completed attempt per user and test) fails where claim C1 does:
  after the session in which the sixty seconds ran out, the store holds two completed
  attempts of user \<open>u1\<close> for test \<open>t1\<close>. Opening the test again on that store is refused.
\<close>

theorem two_completed_attempts_for_one_pair:
  "map status (completed_attempts (db demo_final) (uid demo_user) ''t1'') = [Completed, Completed]
   \<and> route (mount no_digits (\<lambda>qs. qs) (Some demo_user) ''t1'' (db demo_final))
      = Some ''/student/tests''"
proof -
  have f: "demo_final = run no_digits (replicate 60 TimerFires) demo_started"
    by (simp add: demo_final_def demo_started_def)
  have "testAttempts (db (run no_digits (replicate (nat (timeRemaining demo_started)) TimerFires)
          demo_started))
      = testAttempts (db demo_started)
        @ [completed_doc (demo_started\<lparr>timeRemaining := 0\<rparr>) demo_user (Fin 0),
           completed_doc (demo_started\<lparr>timeRemaining := 0\<rparr>) demo_user (Fin 0)]"
    by (rule run_out) (simp_all add: demo_started_props five_unanswered_score)
  then have att: "testAttempts (db demo_final)
      = [in_progress_doc demo_runner demo_user,
         completed_doc (demo_started\<lparr>timeRemaining := 0\<rparr>) demo_user (Fin 0),
         completed_doc (demo_started\<lparr>timeRemaining := 0\<rparr>) demo_user (Fin 0)]"
    by (simp add: f demo_started_props)
  have c: "map status (completed_attempts (db demo_final) (uid demo_user) ''t1'')
      = [Completed, Completed]"
    by (simp add: completed_attempts_def att in_progress_doc_def completed_doc_def
        demo_started_eq demo_runner_eq demo_user_def)
  have "grows (db demo_runner) (db demo_final)"
    unfolding demo_final_def by (rule run_grows)
  then have ro: "read_only (db demo_final) = read_only demo_store"
    by (simp add: grows_def demo_runner_eq)
  have rest: "tests (db demo_final) ''t1'' = Some demo_test"
    "\<not> read_fails (db demo_final) Tests" "\<not> read_fails (db demo_final) TestAttempts"
    using ro by (simp_all add: read_only_def demo_store_def)
  have ne: "completed_attempts (db demo_final) (uid demo_user) ''t1'' \<noteq> []" using c by auto
  have "(''t1''::string) \<noteq> []" by simp
  from completed_attempt_blocks_start [OF this rest ne, of no_digits "\<lambda>qs. qs" "[]"]
  show ?thesis using c by simp
qed

end
